(* ===== verification/Zeo_Prelude.thy ===== *)
theory Zeo_Prelude
  imports Main "HOL-Library.Word"
begin

text \<open>
  Shared vocabulary of the development: the machine integer types of the Rust
  sources (\<open>u8\<close>, \<open>u16\<close>, \<open>u32\<close> as words), the way a Rust panic is made a
  value (\<open>panic + 'a\<close>, with \<open>and_then\<close> to sequence computations that may
  panic), the arithmetic of the standard library that the sources call
  (\<open>from_le_bytes\<close>, \<open>saturating_sub\<close>, \<open>saturating_add\<close>, \<open>-\<close> under the
  build profile's overflow checks), and the word and list lemmas the
  component theories share. The collections \<open>zeo_defs\<close> (unfoldings) and
  \<open>zeo_simps\<close> (characteristic equations) carry the component proofs.
\<close>

unbundle bit_operations_syntax

named_theorems zeo_defs "definitions of the model that proofs unfold"
named_theorems zeo_simps "characteristic equations of the model's operations"

type_synonym u8 = "8 word"
type_synonym u16 = "16 word"
type_synonym u32 = "32 word"

subsection \<open>Panics as values\<close>

text \<open>
  The ways the sources can panic: \<open>Option::unwrap\<close> on \<open>None\<close>, the
  arithmetic operators \<open>-\<close> and \<open>+\<close> leaving the range of their type when
  the build has overflow checks (the debug profile), and an index out of
  the bounds of a slice.
\<close>

datatype panic = UnwrapOnNone | SubtractOverflow | AddOverflow | IndexOutOfBounds

definition and_then :: "panic + 'a \<Rightarrow> ('a \<Rightarrow> panic + 'b) \<Rightarrow> panic + 'b" where
  "and_then m f = (case m of Inl p \<Rightarrow> Inl p | Inr x \<Rightarrow> f x)"

definition unwrap :: "'a option \<Rightarrow> panic + 'a" where
  "unwrap v = (case v of None \<Rightarrow> Inl UnwrapOnNone | Some x \<Rightarrow> Inr x)"

definition unwrap_or :: "'a option \<Rightarrow> 'a \<Rightarrow> 'a" where
  "unwrap_or v d = (case v of None \<Rightarrow> d | Some x \<Rightarrow> x)"

subsection \<open>Arithmetic of the standard library\<close>

definition u16_from_le_bytes :: "u8 \<Rightarrow> u8 \<Rightarrow> u16" where
  "u16_from_le_bytes b0 b1 = ucast b0 OR push_bit 8 (ucast b1)"

definition u32_from_le_bytes :: "u8 \<Rightarrow> u8 \<Rightarrow> u8 \<Rightarrow> u8 \<Rightarrow> u32" where
  "u32_from_le_bytes b0 b1 b2 b3 =
     ucast b0 OR push_bit 8 (ucast b1) OR push_bit 16 (ucast b2) OR push_bit 24 (ucast b3)"

definition u16_to_le_bytes :: "u16 \<Rightarrow> u8 list" where
  "u16_to_le_bytes w = [ucast w, ucast (drop_bit 8 w)]"

definition u32_to_le_bytes :: "u32 \<Rightarrow> u8 list" where
  "u32_to_le_bytes w =
     [ucast w, ucast (drop_bit 8 w), ucast (drop_bit 16 w), ucast (drop_bit 24 w)]"

definition saturating_sub :: "'a::len word \<Rightarrow> 'a word \<Rightarrow> 'a word" where
  "saturating_sub a b = (if a < b then 0 else a - b)"

definition saturating_add :: "'a::len word \<Rightarrow> 'a word \<Rightarrow> 'a word" where
  "saturating_add a b = (if unat a + unat b < 2 ^ LENGTH('a) then a + b else - 1)"

text \<open>
  The operators \<open>-\<close> and \<open>+\<close> of Rust: with overflow checks they panic
  when the exact result is out of range, without them they wrap.
\<close>

definition sub_op :: "bool \<Rightarrow> 'a::len word \<Rightarrow> 'a word \<Rightarrow> panic + 'a word" where
  "sub_op checks a b = (if checks \<and> a < b then Inl SubtractOverflow else Inr (a - b))"

definition add_op :: "bool \<Rightarrow> 'a::len word \<Rightarrow> 'a word \<Rightarrow> panic + 'a word" where
  "add_op checks a b =
     (if checks \<and> 2 ^ LENGTH('a) \<le> unat a + unat b then Inl AddOverflow else Inr (a + b))"

subsection \<open>Sequencing\<close>

lemma and_then_Inr [simp]: "and_then (Inr x) f = f x"
  by (simp add: and_then_def)

lemma and_then_Inl [simp]: "and_then (Inl p) f = Inl p"
  by (simp add: and_then_def)

lemma and_then_eq_Inr_iff:
  "and_then m f = Inr y \<longleftrightarrow> (\<exists>x. m = Inr x \<and> f x = Inr y)"
  by (cases m) simp_all

lemma and_then_eq_Inl_iff:
  "and_then m f = Inl p \<longleftrightarrow> m = Inl p \<or> (\<exists>x. m = Inr x \<and> f x = Inl p)"
  by (cases m) simp_all

lemma and_then_assoc:
  "and_then (and_then m f) g = and_then m (\<lambda>x. and_then (f x) g)"
  by (cases m) simp_all

lemma unwrap_simps [simp]:
  "unwrap None = Inl UnwrapOnNone" "unwrap (Some x) = Inr x"
  by (simp_all add: unwrap_def)

lemma unwrap_or_simps [simp]:
  "unwrap_or None d = d" "unwrap_or (Some x) d = x"
  by (simp_all add: unwrap_or_def)

lemma sub_op_unchecked [simp]: "sub_op False a b = Inr (a - b)"
  by (simp add: sub_op_def)

lemma sub_op_le [simp]: "b \<le> a \<Longrightarrow> sub_op checks a b = Inr (a - b)"
  by (simp add: sub_op_def not_less [symmetric])

lemma sub_op_eq_Inl_iff: "sub_op checks a b = Inl p \<longleftrightarrow> checks \<and> a < b \<and> p = SubtractOverflow"
  by (auto simp: sub_op_def)

lemma add_op_unchecked [simp]: "add_op False a b = Inr (a + b)"
  by (simp add: add_op_def)

lemma add_op_in_range [simp]:
  "unat a + unat b < 2 ^ LENGTH('a) \<Longrightarrow> add_op checks (a :: 'a::len word) b = Inr (a + b)"
  by (simp add: add_op_def)

subsection \<open>Bytes of a word\<close>

lemma byte_mask: "(255 :: 'a::len word) = mask 8"
  by (simp add: mask_eq_exp_minus_1)

lemma and_255_ucast: "(x :: u32) AND 255 = ucast (ucast x :: u8)"
  unfolding byte_mask by (rule bit_word_eqI) (auto simp: bit_simps)

lemma unat_ucast_u8_u32 [simp]: "unat (ucast (b :: u8) :: u32) = unat b"
  by (simp add: unsigned_ucast_eq take_bit_nat_eq_self_iff order_less_trans [OF unsigned_less])

lemma unat_ucast_u8_u16 [simp]: "unat (ucast (b :: u8) :: u16) = unat b"
  by (simp add: unsigned_ucast_eq take_bit_nat_eq_self_iff order_less_trans [OF unsigned_less])

lemma ucast_u8_u32_eq_iff [simp]: "(ucast (a :: u8) :: u32) = ucast b \<longleftrightarrow> a = b"
  by (metis unat_ucast_u8_u32 word_eq_iff_unsigned)

lemma and_255_eq_ucast_iff: "(x :: u32) AND 255 = ucast (b :: u8) \<longleftrightarrow> ucast x = b"
  by (simp add: and_255_ucast)

lemma unat_u8_less [simp]: "unat (b :: u8) < 256"
  using unsigned_less [of b, where 'a = nat] by simp

lemma u16_from_to_le_bytes [simp]:
  "u16_from_le_bytes (ucast w) (ucast (drop_bit 8 w)) = w"
  unfolding u16_from_le_bytes_def by (rule bit_word_eqI) (auto simp: bit_simps)

lemma u16_low_byte [simp]: "ucast (u16_from_le_bytes a b) = a"
  unfolding u16_from_le_bytes_def by (rule bit_word_eqI) (auto simp: bit_simps)

lemma u16_high_byte [simp]: "ucast (drop_bit 8 (u16_from_le_bytes a b)) = b"
  unfolding u16_from_le_bytes_def
  by (rule bit_word_eqI) (auto simp: bit_simps dest: bit_imp_le_length)

lemma u16_from_le_bytes_inject [simp]:
  "u16_from_le_bytes a b = u16_from_le_bytes c d \<longleftrightarrow> a = c \<and> b = d"
  by (metis u16_low_byte u16_high_byte)

lemma u32_from_to_le_bytes [simp]:
  "u32_from_le_bytes (ucast w) (ucast (drop_bit 8 w)) (ucast (drop_bit 16 w))
     (ucast (drop_bit 24 w)) = w"
proof (rule bit_word_eqI)
  fix n assume "n < LENGTH(32)"
  then consider "n < 8" | "8 \<le> n" "n < 16" | "16 \<le> n" "n < 24" | "24 \<le> n" "n < 32"
    by fastforce
  then show "bit (u32_from_le_bytes (ucast w) (ucast (drop_bit 8 w)) (ucast (drop_bit 16 w))
      (ucast (drop_bit 24 w))) n = bit w n"
    unfolding u32_from_le_bytes_def by cases (auto simp: bit_simps)
qed

lemma u32_low_byte [simp]: "ucast (u32_from_le_bytes b0 b1 b2 b3) = b0"
  unfolding u32_from_le_bytes_def by (rule bit_word_eqI) (auto simp: bit_simps)

lemma length_u16_to_le_bytes [simp]: "length (u16_to_le_bytes w) = 2"
  by (simp add: u16_to_le_bytes_def)

lemma length_u32_to_le_bytes [simp]: "length (u32_to_le_bytes w) = 4"
  by (simp add: u32_to_le_bytes_def)

subsection \<open>Saturating arithmetic\<close>

lemma unat_saturating_sub: "unat (saturating_sub a b) = unat a - unat b"
  by (simp add: saturating_sub_def unat_sub word_less_nat_alt not_less word_le_nat_alt)

lemma unat_saturating_add:
  "unat (saturating_add a b) = min (unat a + unat b) (2 ^ LENGTH('a) - 1)"
  for a b :: "'a::len word"
  by (auto simp: saturating_add_def unat_add_lem [THEN iffD1] unsigned_minus_1_eq_mask
      mask_eq_exp_minus_1 min_def)

lemma saturating_sub_le: "saturating_sub a b \<le> a"
  by (simp add: word_le_nat_alt unat_saturating_sub)

lemma saturating_add_ge: "a \<le> saturating_add a b"
  by (simp add: word_le_nat_alt unat_saturating_add min_def) (use unsigned_less [of a, where 'a = nat] in arith)

subsection \<open>Lists\<close>

lemma take_drop_append_length [simp]:
  "take (length xs) (xs @ ys) = xs" "drop (length xs) (xs @ ys) = ys"
  by simp_all

lemma length_ge_iff_append:
  "n \<le> length xs \<longleftrightarrow> (\<exists>ys zs. xs = ys @ zs \<and> length ys = n)"
  by (metis append_take_drop_id length_append length_take le_add1 min.absorb2)

end
