(* ===== verification/Frame_Types.thy ===== *)
theory Frame_Types
  imports Zeo_Prelude
begin

text \<open>
  The frame type tables of \<^verbatim>\<open>src/lib.rs\<close>: the four enumerations
  \<open>DataType\<close>, \<open>EventType\<close>, \<open>FrequencyBins\<close> and \<open>SleepStages\<close> as
  datatypes with the constructors of the source, their \<^verbatim>\<open>From<u8>\<close>
  conversions as total functions (\<open>DataType_from\<close>, ...), the discriminant
  each variant declares (\<open>DataType_discriminant\<close>, ...), and the methods of
  \<open>FrequencyBins\<close>. Every enumeration of the source has a variant
  \<open>Invalid\<close>; the four constructors are told apart by their type's name
  (\<open>DataType.Invalid\<close>, \<open>EventType.Invalid\<close>, ...). The lemmas say which
  bytes each conversion recognises, that conversion inverts the declared
  discriminants (and where it does not), and that it never fails.
\<close>

subsection \<open>DataType\<close>

datatype DataType =
    Event
  | SliceEnd
  | Version
  | Waveform
  | FrequencyBins
  | Sqi
  | ZeoTimestamp
  | Impedance
  | BadSignal
  | SleepStage
  | Invalid u8

definition DataType_discriminant :: "DataType \<Rightarrow> u8" where
  "DataType_discriminant d =
     (case d of
        Event \<Rightarrow> 0x00
      | SliceEnd \<Rightarrow> 0x02
      | Version \<Rightarrow> 0x03
      | Waveform \<Rightarrow> 0x80
      | DataType.FrequencyBins \<Rightarrow> 0x83
      | Sqi \<Rightarrow> 0x84
      | ZeoTimestamp \<Rightarrow> 0x8A
      | Impedance \<Rightarrow> 0x97
      | BadSignal \<Rightarrow> 0x9C
      | SleepStage \<Rightarrow> 0x9D
      | DataType.Invalid _ \<Rightarrow> 0xFF)"

definition DataType_from :: "u8 \<Rightarrow> DataType" where
  "DataType_from b =
     (if b = 0x00 then Event
      else if b = 0x02 then SliceEnd
      else if b = 0x03 then Version
      else if b = 0x80 then Waveform
      else if b = 0x83 then DataType.FrequencyBins
      else if b = 0x84 then Sqi
      else if b = 0x8A then ZeoTimestamp
      else if b = 0x97 then Impedance
      else if b = 0x9C then BadSignal
      else if b = 0x9D then SleepStage
      else DataType.Invalid b)"

definition is_invalid :: "DataType \<Rightarrow> bool" where
  "is_invalid d = (case d of DataType.Invalid _ \<Rightarrow> True | _ \<Rightarrow> False)"

definition data_codes :: "u8 list" where
  "data_codes = [0x00, 0x02, 0x03, 0x80, 0x83, 0x84, 0x8A, 0x97, 0x9C, 0x9D]"

subsection \<open>EventType\<close>

datatype EventType =
    NightStart
  | SleepOnset
  | HeadbandDocked
  | HeadbandUnDocked
  | AlarmOff
  | AlarmSnooze
  | AlarmPlay
  | NightEnd
  | NewHeadband
  | Invalid u8

definition EventType_discriminant :: "EventType \<Rightarrow> u8" where
  "EventType_discriminant e =
     (case e of
        NightStart \<Rightarrow> 0x05
      | SleepOnset \<Rightarrow> 0x07
      | HeadbandDocked \<Rightarrow> 0x0E
      | HeadbandUnDocked \<Rightarrow> 0x0F
      | AlarmOff \<Rightarrow> 0x10
      | AlarmSnooze \<Rightarrow> 0x11
      | AlarmPlay \<Rightarrow> 0x13
      | NightEnd \<Rightarrow> 0x15
      | NewHeadband \<Rightarrow> 0x24
      | EventType.Invalid _ \<Rightarrow> 0xFF)"

definition EventType_from :: "u8 \<Rightarrow> EventType" where
  "EventType_from b =
     (if b = 0x05 then NightStart
      else if b = 0x07 then SleepOnset
      else if b = 0x0E then HeadbandDocked
      else if b = 0x8F then HeadbandUnDocked
      else if b = 0x10 then AlarmOff
      else if b = 0x11 then AlarmSnooze
      else if b = 0x13 then AlarmPlay
      else if b = 0x15 then NightEnd
      else if b = 0x24 then NewHeadband
      else EventType.Invalid b)"

subsection \<open>FrequencyBins\<close>

datatype FrequencyBins =
    Delta
  | Theta
  | Alpha
  | BetaMid
  | BetaHigh
  | BetaLow
  | Gamma
  | Invalid u8

definition FrequencyBins_discriminant :: "FrequencyBins \<Rightarrow> u8" where
  "FrequencyBins_discriminant f =
     (case f of
        Delta \<Rightarrow> 0x00
      | Theta \<Rightarrow> 0x01
      | Alpha \<Rightarrow> 0x02
      | BetaMid \<Rightarrow> 0x03
      | BetaHigh \<Rightarrow> 0x04
      | BetaLow \<Rightarrow> 0x05
      | Gamma \<Rightarrow> 0x06
      | FrequencyBins.Invalid _ \<Rightarrow> 0xFF)"

definition hz :: "FrequencyBins \<Rightarrow> u8 \<times> u8" where
  "hz f =
     (case f of
        Delta \<Rightarrow> (2, 4)
      | Theta \<Rightarrow> (4, 8)
      | Alpha \<Rightarrow> (8, 13)
      | BetaLow \<Rightarrow> (11, 14)
      | BetaMid \<Rightarrow> (13, 18)
      | BetaHigh \<Rightarrow> (18, 21)
      | Gamma \<Rightarrow> (30, 50)
      | FrequencyBins.Invalid _ \<Rightarrow> (0, 0))"

definition is_delta :: "FrequencyBins \<Rightarrow> bool" where
  "is_delta f = (case f of Delta \<Rightarrow> True | _ \<Rightarrow> False)"

definition is_theta :: "FrequencyBins \<Rightarrow> bool" where
  "is_theta f = (case f of Theta \<Rightarrow> True | _ \<Rightarrow> False)"

definition is_alpha :: "FrequencyBins \<Rightarrow> bool" where
  "is_alpha f = (case f of Alpha \<Rightarrow> True | _ \<Rightarrow> False)"

definition is_gamma :: "FrequencyBins \<Rightarrow> bool" where
  "is_gamma f = (case f of Gamma \<Rightarrow> True | _ \<Rightarrow> False)"

definition is_betta :: "FrequencyBins \<Rightarrow> bool" where
  "is_betta f = (case f of BetaLow \<Rightarrow> True | BetaMid \<Rightarrow> True | BetaHigh \<Rightarrow> True | _ \<Rightarrow> False)"

definition FrequencyBins_from :: "u8 \<Rightarrow> FrequencyBins" where
  "FrequencyBins_from b =
     (if b = 0x00 then Delta
      else if b = 0x01 then Theta
      else if b = 0x02 then Alpha
      else if b = 0x03 then BetaMid
      else if b = 0x04 then BetaHigh
      else if b = 0x05 then BetaLow
      else if b = 0x06 then Gamma
      else FrequencyBins.Invalid b)"

subsection \<open>SleepStages\<close>

datatype SleepStages =
    Undefined
  | Awake
  | Rem
  | Light
  | Deep
  | Invalid u8

definition SleepStages_discriminant :: "SleepStages \<Rightarrow> u8" where
  "SleepStages_discriminant s =
     (case s of
        Undefined \<Rightarrow> 0x00
      | Awake \<Rightarrow> 0x01
      | Rem \<Rightarrow> 0x02
      | Light \<Rightarrow> 0x03
      | Deep \<Rightarrow> 0x04
      | SleepStages.Invalid _ \<Rightarrow> 0xFF)"

definition SleepStages_from :: "u8 \<Rightarrow> SleepStages" where
  "SleepStages_from b =
     (if b = 0x00 then Undefined
      else if b = 0x01 then Awake
      else if b = 0x02 then Rem
      else if b = 0x03 then Light
      else if b = 0x04 then Deep
      else SleepStages.Invalid b)"

lemmas frame_type_defs [zeo_defs] =
  DataType_from_def DataType_discriminant_def is_invalid_def data_codes_def
  EventType_from_def EventType_discriminant_def
  FrequencyBins_from_def FrequencyBins_discriminant_def
  SleepStages_from_def SleepStages_discriminant_def

subsection \<open>What the conversions recognise\<close>

lemma is_invalid_simps [simp]:
  "is_invalid (DataType.Invalid b)" "\<not> is_invalid Event" "\<not> is_invalid SliceEnd"
  "\<not> is_invalid Version" "\<not> is_invalid Waveform" "\<not> is_invalid DataType.FrequencyBins"
  "\<not> is_invalid Sqi" "\<not> is_invalid ZeoTimestamp" "\<not> is_invalid Impedance"
  "\<not> is_invalid BadSignal" "\<not> is_invalid SleepStage"
  by (simp_all add: is_invalid_def)

lemma DataType_from_Invalid_iff:
  "DataType_from b = DataType.Invalid c \<longleftrightarrow> c = b \<and> b \<notin> set data_codes"
  by (auto simp: DataType_from_def data_codes_def)

lemma is_invalid_from_iff: "is_invalid (DataType_from b) \<longleftrightarrow> b \<notin> set data_codes"
  by (simp add: DataType_from_def data_codes_def)

lemma DataType_discriminant_from:
  "b \<in> set data_codes \<Longrightarrow> DataType_discriminant (DataType_from b) = b"
  by (auto simp: DataType_from_def DataType_discriminant_def data_codes_def)

lemma DataType_from_eq_ZeoTimestamp [simp]: "DataType_from b = ZeoTimestamp \<longleftrightarrow> b = 0x8A"
  by (simp add: DataType_from_def)

lemma DataType_from_eq_Version [simp]: "DataType_from b = Version \<longleftrightarrow> b = 0x03"
  by (simp add: DataType_from_def)

text \<open>
  C34. \<open>DataType::from\<close> inverts the discriminants the enumeration declares:
  converting the declared code of any variant other than \<open>Invalid\<close> gives
  that variant back, so no recognised frame type is misclassified.
\<close>

theorem DataType_from_discriminant:
  "\<not> is_invalid d \<Longrightarrow> DataType_from (DataType_discriminant d) = d"
  by (cases d) (simp_all add: DataType_from_def DataType_discriminant_def)

theorem DataType_from_discriminant_witness:
  "\<not> is_invalid ZeoTimestamp \<and> DataType_from (DataType_discriminant ZeoTimestamp) = ZeoTimestamp"
  using DataType_from_discriminant [of ZeoTimestamp] by simp

text \<open>
  C35. \<open>EventType::from\<close> inverts the declared discriminant of every
  variant other than \<open>Invalid\<close> except one: converting the declared code
  gives the variant back exactly when the variant is not
  \<open>HeadbandUnDocked\<close>. The enumeration declares \<open>HeadbandUnDocked = 0x0F\<close>,
  the conversion recognises \<open>0x8F\<close>, so the declared code of that variant
  is converted to \<open>Invalid\<close>.
\<close>

theorem EventType_from_discriminant_iff:
  assumes "\<forall>b. e \<noteq> EventType.Invalid b"
  shows "EventType_from (EventType_discriminant e) = e \<longleftrightarrow> e \<noteq> HeadbandUnDocked"
  using assms by (cases e) (simp_all add: EventType_from_def EventType_discriminant_def)

theorem EventType_from_discriminant_iff_witness:
  "EventType_from (EventType_discriminant NightEnd) = NightEnd
   \<and> EventType_from (EventType_discriminant HeadbandUnDocked) \<noteq> HeadbandUnDocked"
  using EventType_from_discriminant_iff [of NightEnd]
    EventType_from_discriminant_iff [of HeadbandUnDocked]
  by simp

lemma FrequencyBins_from_discriminant:
  "(\<forall>b. f \<noteq> FrequencyBins.Invalid b)
   \<Longrightarrow> FrequencyBins_from (FrequencyBins_discriminant f) = f"
  by (cases f) (simp_all add: FrequencyBins_from_def FrequencyBins_discriminant_def)

lemma SleepStages_from_discriminant:
  "(\<forall>b. s \<noteq> SleepStages.Invalid b)
   \<Longrightarrow> SleepStages_from (SleepStages_discriminant s) = s"
  by (cases s) (simp_all add: SleepStages_from_def SleepStages_discriminant_def)

lemma hz_ordered: "fst (hz f) \<le> snd (hz f)"
  by (cases f) (simp_all add: hz_def)

lemma is_betta_iff: "is_betta f \<longleftrightarrow> f = BetaLow \<or> f = BetaMid \<or> f = BetaHigh"
  by (cases f) (simp_all add: is_betta_def)

end
