(* ===== verification/Frame_Display.thy ===== *)
theory Frame_Display
  imports Frame_Types
begin

text \<open>
  The \<^verbatim>\<open>Display\<close> implementations of the four enumerations of
  \<^verbatim>\<open>src/lib.rs\<close>: every variant prints its name, and \<open>Invalid(b)\<close> prints
  the byte in decimal between parentheses. \<open>show_nat\<close> stands for the
  decimal rendering that \<^verbatim>\<open>format!\<close> applies to a \<^verbatim>\<open>u8\<close>, which is
  library code: it is a model, not a translation. \<open>read_nat\<close>, the value of
  a string of digits, is only the means to show that \<open>show_nat\<close> is
  injective. What is proved of the program is that no two values of an
  enumeration print alike.
\<close>

definition digit_char :: "nat \<Rightarrow> char" where
  "digit_char d = char_of (48 + d)"

fun show_nat :: "nat \<Rightarrow> string" where
  "show_nat n = (if n < 10 then [digit_char n] else show_nat (n div 10) @ [digit_char (n mod 10)])"

declare show_nat.simps [simp del]

definition show_u8 :: "u8 \<Rightarrow> string" where
  "show_u8 b = show_nat (unat b)"

definition read_nat :: "string \<Rightarrow> nat" where
  "read_nat s = foldl (\<lambda>a c. 10 * a + (of_char c - 48)) 0 s"

fun DataType_fmt :: "DataType \<Rightarrow> string" where
  "DataType_fmt Event = ''Event''"
| "DataType_fmt SliceEnd = ''SliceEnd''"
| "DataType_fmt Version = ''Version''"
| "DataType_fmt Waveform = ''Waveform''"
| "DataType_fmt DataType.FrequencyBins = ''FrequencyBins''"
| "DataType_fmt Sqi = ''Sqi''"
| "DataType_fmt ZeoTimestamp = ''ZeoTimestamp''"
| "DataType_fmt Impedance = ''Impedance''"
| "DataType_fmt BadSignal = ''BadSignal''"
| "DataType_fmt SleepStage = ''SleepStage''"
| "DataType_fmt (DataType.Invalid b) = ''Invalid('' @ show_u8 b @ '')''"

fun EventType_fmt :: "EventType \<Rightarrow> string" where
  "EventType_fmt NightStart = ''NightStart''"
| "EventType_fmt SleepOnset = ''SleepOnset''"
| "EventType_fmt HeadbandDocked = ''HeadbandDocked''"
| "EventType_fmt HeadbandUnDocked = ''HeadbandUnDocked''"
| "EventType_fmt AlarmOff = ''AlarmOff''"
| "EventType_fmt AlarmSnooze = ''AlarmSnooze''"
| "EventType_fmt AlarmPlay = ''AlarmPlay''"
| "EventType_fmt NightEnd = ''NightEnd''"
| "EventType_fmt NewHeadband = ''NewHeadband''"
| "EventType_fmt (EventType.Invalid b) = ''Invalid('' @ show_u8 b @ '')''"

fun FrequencyBins_fmt :: "FrequencyBins \<Rightarrow> string" where
  "FrequencyBins_fmt Delta = ''Delta''"
| "FrequencyBins_fmt Theta = ''Theta''"
| "FrequencyBins_fmt Alpha = ''Alpha''"
| "FrequencyBins_fmt BetaMid = ''BetaMid''"
| "FrequencyBins_fmt BetaHigh = ''BetaHigh''"
| "FrequencyBins_fmt BetaLow = ''BetaLow''"
| "FrequencyBins_fmt Gamma = ''Gamma''"
| "FrequencyBins_fmt (FrequencyBins.Invalid b) = ''Invalid('' @ show_u8 b @ '')''"

fun SleepStages_fmt :: "SleepStages \<Rightarrow> string" where
  "SleepStages_fmt Undefined = ''Undefined''"
| "SleepStages_fmt Awake = ''Awake''"
| "SleepStages_fmt Rem = ''Rem''"
| "SleepStages_fmt Light = ''Light''"
| "SleepStages_fmt Deep = ''Deep''"
| "SleepStages_fmt (SleepStages.Invalid b) = ''Invalid('' @ show_u8 b @ '')''"

subsection \<open>Decimal rendering\<close>

lemma of_char_digit_char [simp]: "d < 10 \<Longrightarrow> of_char (digit_char d) = 48 + d"
  by (simp add: digit_char_def)

lemma read_nat_snoc [simp]: "read_nat (s @ [c]) = 10 * read_nat s + (of_char c - 48)"
  by (simp add: read_nat_def)

lemma read_nat_show_nat [simp]: "read_nat (show_nat n) = n"
proof (induction n rule: show_nat.induct)
  case (1 n)
  show ?case
  proof (cases "n < 10")
    case True
    then show ?thesis by (simp add: show_nat.simps [of n] read_nat_def)
  next
    case False
    with 1 show ?thesis by (simp add: show_nat.simps [of n])
  qed
qed

lemma show_nat_inject [simp]: "show_nat m = show_nat n \<longleftrightarrow> m = n"
  by (metis read_nat_show_nat)

lemma show_u8_inject [simp]: "show_u8 a = show_u8 b \<longleftrightarrow> a = b"
  by (simp add: show_u8_def word_unat_eq_iff)

subsection \<open>No two values print alike\<close>

lemma DataType_fmt_inject: "DataType_fmt x = DataType_fmt y \<longleftrightarrow> x = y"
  by (cases x; cases y) simp_all

lemma EventType_fmt_inject: "EventType_fmt x = EventType_fmt y \<longleftrightarrow> x = y"
  by (cases x; cases y) simp_all

lemma FrequencyBins_fmt_inject: "FrequencyBins_fmt x = FrequencyBins_fmt y \<longleftrightarrow> x = y"
  by (cases x; cases y) simp_all

lemma SleepStages_fmt_inject: "SleepStages_fmt x = SleepStages_fmt y \<longleftrightarrow> x = y"
  by (cases x; cases y) simp_all

text \<open>
  C33. \<^verbatim>\<open>Display\<close> loses nothing: in each of the four enumerations no two
  values print alike, the unrecognised bytes included.
\<close>

theorem fmt_injective:
  "inj DataType_fmt \<and> inj EventType_fmt \<and> inj FrequencyBins_fmt \<and> inj SleepStages_fmt"
  by (simp add: inj_def DataType_fmt_inject EventType_fmt_inject FrequencyBins_fmt_inject
      SleepStages_fmt_inject)

end
