(* ===== verification/Noise_Filter.thy ===== *)
theory Noise_Filter
  imports Complex_Main Zeo_Prelude
begin

text \<open>
  The convolution filter \<^verbatim>\<open>filter60hz\<close> of \<^verbatim>\<open>src/lib.rs\<close>. Samples are
  real numbers here: the rounding of \<^verbatim>\<open>f64\<close> is not modelled, so the values
  are those of the exact convolution, while the index arithmetic, the
  bounds checks and the order of the additions are those of the code.
  \<^verbatim>\<open>usize\<close> values are natural numbers (a slice is shorter than \<open>2^63\<close>, so
  the sums of lengths do not overflow); the one subtraction that can
  underflow, \<^verbatim>\<open>p - 1\<close>, and \<^verbatim>\<open>k - i\<close> are \<open>usize_sub\<close>, which panics
  or wraps at \<open>2^64\<close> by the build profile. Indexing is \<open>index\<close> and
  \<open>store\<close>, which panic out of bounds. \<open>accumulate\<close> is the inner loop,
  \<open>convolve\<close> the outer loop over the output vector, \<open>conv\<close> the
  convolution sum they are proved to compute.
\<close>

definition filter_kernel :: "real list" where
  "filter_kernel =
     [0.0056, 0.0190, 0.0113, -0.0106, 0.0029, 0.0041, -0.0082, 0.0089, -0.0062, 0.0006, 0.0066,
      -0.0129, 0.0157, -0.0127, 0.0035, 0.0102, -0.0244, 0.0336, -0.0323, 0.0168, 0.0136,
      -0.0555, 0.1020, -0.1446, 0.1743, 0.8150, 0.1743, -0.1446, 0.1020, -0.0555, 0.0136, 0.0168,
      -0.0323, 0.0336, -0.0244, 0.0102, 0.0035, -0.0127, 0.0157, -0.0129, 0.0066, 0.0006,
      -0.0062, 0.0089, -0.0082, 0.0041, 0.0029, -0.0106, 0.0113, 0.0190, 0.0056]"

definition usize_sub :: "bool \<Rightarrow> nat \<Rightarrow> nat \<Rightarrow> panic + nat" where
  "usize_sub checks a b =
     (if b \<le> a then Inr (a - b)
      else if checks then Inl SubtractOverflow
      else Inr (a + 2 ^ 64 - b))"

definition index :: "'a list \<Rightarrow> nat \<Rightarrow> panic + 'a" where
  "index xs i = (if i < length xs then Inr (xs ! i) else Inl IndexOutOfBounds)"

definition store :: "'a list \<Rightarrow> nat \<Rightarrow> 'a \<Rightarrow> panic + 'a list" where
  "store xs i v = (if i < length xs then Inr (xs[i := v]) else Inl IndexOutOfBounds)"

primrec accumulate :: "bool \<Rightarrow> real list \<Rightarrow> nat \<Rightarrow> nat list \<Rightarrow> real \<Rightarrow> panic + real" where
  "accumulate checks a k [] t = Inr t"
| "accumulate checks a k (i # is) t =
     and_then (index a i) (\<lambda>x.
     and_then (usize_sub checks k i) (\<lambda>j.
     and_then (index filter_kernel j) (\<lambda>h.
     accumulate checks a k is (t + x * h))))"

primrec convolve :: "bool \<Rightarrow> real list \<Rightarrow> nat list \<Rightarrow> real list \<Rightarrow> panic + real list" where
  "convolve checks a [] c = Inr c"
| "convolve checks a (k # ks) c =
     (let lower = k - (length filter_kernel - 1)
      in and_then (usize_sub checks (length a) 1) (\<lambda>pm1.
         let upper = min k pm1
         in and_then (accumulate checks a k [lower..<Suc upper] 0) (\<lambda>t.
            and_then (store c k t) (\<lambda>c.
            convolve checks a ks c))))"

definition filter60hz :: "bool \<Rightarrow> real list \<Rightarrow> panic + real list" where
  "filter60hz checks a =
     (let p = length a; q = length filter_kernel; n = p + q - 1
      in convolve checks a [0..<n] (replicate n 0))"

text \<open>The convolution sum at output index \<open>k\<close>.\<close>

definition conv :: "real list \<Rightarrow> nat \<Rightarrow> real" where
  "conv a k = (\<Sum>i \<leftarrow> [k - 50..<Suc (min k (length a - 1))]. a ! i * filter_kernel ! (k - i))"

subsection \<open>The kernel\<close>

lemma length_filter_kernel [simp]: "length filter_kernel = 51"
  by (simp add: filter_kernel_def)

lemma filter_kernel_symmetric: "rev filter_kernel = filter_kernel"
  by (simp add: filter_kernel_def)

subsection \<open>The loops\<close>

lemma index_simps [simp]: "i < length xs \<Longrightarrow> index xs i = Inr (xs ! i)"
  "length xs \<le> i \<Longrightarrow> index xs i = Inl IndexOutOfBounds"
  by (simp_all add: index_def)

lemma usize_sub_le [simp]: "b \<le> a \<Longrightarrow> usize_sub checks a b = Inr (a - b)"
  by (simp add: usize_sub_def)

lemma usize_sub_0_1 [simp]:
  "usize_sub checks 0 (Suc 0) = (if checks then Inl SubtractOverflow else Inr (2 ^ 64 - 1))"
  by (simp add: usize_sub_def)

lemma accumulate_in_range:
  "\<forall>i \<in> set is. i < length a \<and> i \<le> k \<and> k - i < 51 \<Longrightarrow>
   accumulate checks a k is t = Inr (t + (\<Sum>i \<leftarrow> is. a ! i * filter_kernel ! (k - i)))"
  by (induction "is" arbitrary: t) (simp_all add: add.assoc)

lemma accumulate_conv:
  assumes "a \<noteq> []"
  shows "accumulate checks a k [k - 50..<Suc (min k (length a - Suc 0))] 0 = Inr (conv a k)"
proof -
  from assms
  have "\<forall>i \<in> set [k - 50..<Suc (min k (length a - Suc 0))]. i < length a \<and> i \<le> k \<and> k - i < 51"
    by (cases a) auto
  from accumulate_in_range [OF this] show ?thesis by (simp add: conv_def del: upt_Suc)
qed

lemma convolve_upt:
  assumes "a \<noteq> []" and "length c = n" and "m \<le> n"
  shows "convolve checks a [m..<n] c = Inr (take m c @ map (conv a) [m..<n])"
  using assms(2,3)
proof (induction "n - m" arbitrary: m c)
  case 0
  then show ?case by simp
next
  case (Suc d)
  then have m: "m < n" and d: "d = n - Suc m" by simp_all
  from assms(1) have p: "1 \<le> length a" by (cases a) simp_all
  from m Suc.prems have "store c m (conv a m) = Inr (c[m := conv a m])"
    by (simp add: store_def)
  moreover have "take (Suc m) (c[m := conv a m]) = take m c @ [conv a m]"
    using m Suc.prems by (simp add: take_Suc_conv_app_nth)
  ultimately show ?case
    using m p Suc.hyps(1) [OF d, of "c[m := conv a m]"] Suc.prems
    by (simp add: upt_conv_Cons accumulate_conv [OF assms(1)] Let_def del: upt_Suc)
qed

lemma filter60hz_nonempty:
  "a \<noteq> [] \<Longrightarrow> filter60hz checks a = Inr (map (conv a) [0..<length a + 50])"
  using convolve_upt [of a "replicate (length a + 50) 0" "length a + 50" 0 checks]
  by (simp add: filter60hz_def Let_def add.commute)

lemma filter60hz_Nil:
  "filter60hz checks [] = Inl (if checks then SubtractOverflow else IndexOutOfBounds)"
proof -
  have "[0..<50] = 0 # [1..<50]" by (simp add: upt_conv_Cons)
  then show ?thesis
    by (simp add: filter60hz_def Let_def)
qed

text \<open>
  C14. The filter computes the full convolution of its input with the
  kernel, or panics: for a non-empty input of \<open>p\<close> samples it returns
  \<open>p + 50\<close> values, the value at index \<open>k\<close> being the convolution sum
  \<open>conv a k\<close>, and no index is out of bounds and no subtraction underflows;
  for an empty input it panics, on the subtraction \<^verbatim>\<open>p - 1\<close> in a build with
  overflow checks and on the index \<^verbatim>\<open>a[0]\<close> in a build without.
\<close>

theorem filter60hz_eq:
  "filter60hz checks a =
     (if a = [] then Inl (if checks then SubtractOverflow else IndexOutOfBounds)
      else Inr (map (conv a) [0..<length a + 50]))"
  by (simp add: filter60hz_nonempty filter60hz_Nil)

subsection \<open>The impulse response\<close>

text \<open>
  C32. The response of the filter to the unit impulse is its kernel.
\<close>

theorem filter60hz_impulse: "filter60hz checks [1] = Inr filter_kernel"
proof -
  have "conv [1] k = filter_kernel ! k" if "k < 51" for k
    using that by (simp add: conv_def)
  then have "map (conv [1]) [0..<51] = map ((!) filter_kernel) [0..<51]"
    by simp
  also have "\<dots> = filter_kernel"
    using map_nth [of filter_kernel] by simp
  finally show ?thesis by (simp add: filter60hz_nonempty)
qed

end
