(* ===== verification/Reservoir.thy ===== *)
theory Reservoir
  imports Zeo_Prelude
begin

text \<open>
  The byte reservoir: the \<^verbatim>\<open>CircularBuffer<LEN, u8>\<close> that \<^verbatim>\<open>main\<close> fills
  and \<^verbatim>\<open>parse\<close> drains, and the \<^verbatim>\<open>VecDeque<u8>\<close> that holds a payload.
  Both are sequences with the front at the head of a list. The circular
  buffer comes from a crate the sources only call, so its operations are
  modelled from their documented contract: \<open>pop_front\<close> removes the oldest
  element, \<open>push_front\<close> and \<open>extend_from_slice\<close> never grow the buffer
  beyond its capacity \<open>LEN\<close>, a full buffer dropping the element at the
  other end. The lemmas give the list each operation leaves, the capacity
  invariant \<open>within_capacity\<close>, and when an operation loses no byte.
\<close>

definition within_capacity :: "nat \<Rightarrow> 'a list \<Rightarrow> bool" where
  "within_capacity n r \<longleftrightarrow> length r \<le> n"

definition pop_front :: "'a list \<Rightarrow> 'a option \<times> 'a list" where
  "pop_front r = (case r of [] \<Rightarrow> (None, []) | x # r' \<Rightarrow> (Some x, r'))"

definition push_back :: "'a \<Rightarrow> 'a list \<Rightarrow> 'a list" where
  "push_back x r = r @ [x]"

definition push_front :: "nat \<Rightarrow> 'a \<Rightarrow> 'a list \<Rightarrow> 'a list" where
  "push_front n x r = take n (x # r)"

definition extend_from_slice :: "nat \<Rightarrow> 'a list \<Rightarrow> 'a list \<Rightarrow> 'a list" where
  "extend_from_slice n xs r = drop (length r + length xs - n) (r @ xs)"

text \<open>\<open>ring.pop_front().unwrap()\<close>, the way \<^verbatim>\<open>parse\<close> reads every byte.\<close>

definition pop_u8 :: "u8 list \<Rightarrow> panic + (u8 \<times> u8 list)" where
  "pop_u8 r = (case pop_front r of (v, r') \<Rightarrow> and_then (unwrap v) (\<lambda>b. Inr (b, r')))"

definition pop_u16 :: "u8 list \<Rightarrow> panic + (u16 \<times> u8 list)" where
  "pop_u16 r =
     and_then (pop_u8 r) (\<lambda>(b0, r1).
     and_then (pop_u8 r1) (\<lambda>(b1, r2).
     Inr (u16_from_le_bytes b0 b1, r2)))"

lemmas reservoir_defs [zeo_defs] =
  within_capacity_def pop_front_def push_back_def push_front_def extend_from_slice_def

subsection \<open>What each operation leaves\<close>

lemma pop_front_simps [simp]:
  "pop_front [] = (None, [])" "pop_front (x # r) = (Some x, r)"
  by (simp_all add: pop_front_def)

lemma pop_u8_simps [simp]:
  "pop_u8 [] = Inl UnwrapOnNone" "pop_u8 (b # r) = Inr (b, r)"
  by (simp_all add: pop_u8_def)

lemma pop_u16_simps [simp]:
  "pop_u16 [] = Inl UnwrapOnNone" "pop_u16 [b] = Inl UnwrapOnNone"
  "pop_u16 (b0 # b1 # r) = Inr (u16_from_le_bytes b0 b1, r)"
  by (simp_all add: pop_u16_def)

lemma pop_u8_eq_Inr_iff: "pop_u8 r = Inr (b, r') \<longleftrightarrow> r = b # r'"
  by (cases r) auto

lemma pop_u8_eq_Inl_iff: "pop_u8 r = Inl p \<longleftrightarrow> r = [] \<and> p = UnwrapOnNone"
  by (cases r) auto

lemma push_front_fits [simp]: "length r < n \<Longrightarrow> push_front n x r = x # r"
  by (simp add: push_front_def)

lemma push_front_full: "r \<noteq> [] \<Longrightarrow> push_front (length r) x r = x # butlast r"
  by (cases r rule: rev_cases) (simp_all add: push_front_def)

lemma extend_from_slice_fits [simp]:
  "length r + length xs \<le> n \<Longrightarrow> extend_from_slice n xs r = r @ xs"
  by (simp add: extend_from_slice_def)

lemma extend_from_slice_evicts:
  "n < length r + length xs
   \<Longrightarrow> extend_from_slice n xs r = drop (length r + length xs - n) (r @ xs)"
  by (simp add: extend_from_slice_def)

lemma length_extend_from_slice:
  "length (extend_from_slice n xs r) = min n (length r + length xs)"
  by (simp add: extend_from_slice_def)

lemma length_push_front: "length (push_front n x r) = min n (Suc (length r))"
  by (simp add: push_front_def)

subsection \<open>The capacity invariant\<close>

lemma within_capacity_Nil [simp]: "within_capacity n []"
  by (simp add: within_capacity_def)

lemma within_capacity_pop_front:
  "within_capacity n r \<Longrightarrow> within_capacity n (snd (pop_front r))"
  by (cases r) (simp_all add: within_capacity_def)

lemma within_capacity_push_front [simp]: "within_capacity n (push_front n x r)"
  by (simp add: within_capacity_def length_push_front)

lemma within_capacity_extend [simp]: "within_capacity n (extend_from_slice n xs r)"
  by (simp add: within_capacity_def length_extend_from_slice)

lemma within_capacity_shorter:
  "within_capacity n r \<Longrightarrow> length r' \<le> length r \<Longrightarrow> within_capacity n r'"
  by (simp add: within_capacity_def)

subsection \<open>Push after pop gives the buffer back\<close>

lemma push_front_pop_front:
  "within_capacity n (x # r) \<Longrightarrow> push_front n x (snd (pop_front (x # r))) = x # r"
  by (simp add: within_capacity_def)

end
