(* ===== verification/Synchronizer.thy ===== *)
theory Synchronizer
  imports Reservoir
begin

text \<open>
  The frame synchroniser of \<^verbatim>\<open>parse\<close> (\<^verbatim>\<open>src/main.rs\<close>): the inner loop
  that pops bytes through a two-byte window until the window holds the
  marker \<^verbatim>\<open>A4\<close> (\<open>sync\<close>, started by \<open>message_start\<close> with the window
  \<open>[0, 0]\<close>), and the two \<^verbatim>\<open>push_front\<close> calls that put the marker back
  when too few bytes follow it (\<open>restore_start\<close>). The loop unwraps every
  pop, so running out of bytes is the panic \<open>UnwrapOnNone\<close>. The
  specification is \<open>find_marker\<close>, the index of the first marker in a
  list; the lemmas show that the loop stops right after the first marker,
  panics exactly when there is none, and that restoring the marker lets the
  next scan find the same frame.
\<close>

definition marker :: "u8 \<times> u8" where
  "marker = (0x41, 0x34)"

fun sync :: "u8 \<times> u8 \<Rightarrow> u8 list \<Rightarrow> panic + u8 list" where
  "sync start [] = Inl UnwrapOnNone"
| "sync start (b # r) =
     (let start' = (snd start, b)
      in if start' = marker then Inr r else sync start' r)"

definition message_start :: "u8 list \<Rightarrow> panic + u8 list" where
  "message_start r = sync (0, 0) r"

definition restore_start :: "nat \<Rightarrow> u8 list \<Rightarrow> u8 list" where
  "restore_start n r = push_front n 0x41 (push_front n 0x34 r)"

text \<open>The specification: where the first marker of a byte sequence starts.\<close>

fun find_marker :: "u8 list \<Rightarrow> nat option" where
  "find_marker (a # b # r) =
     (if (a, b) = marker then Some 0 else map_option Suc (find_marker (b # r)))"
| "find_marker _ = None"

definition marker_at :: "u8 list \<Rightarrow> nat \<Rightarrow> bool" where
  "marker_at r i \<longleftrightarrow> Suc i < length r \<and> (r ! i, r ! Suc i) = marker"

lemmas synchronizer_defs [zeo_defs] = marker_def message_start_def restore_start_def

subsection \<open>The specification finds the first marker\<close>

lemma find_marker_Some_marker_at: "find_marker r = Some i \<Longrightarrow> marker_at r i"
proof (induction r arbitrary: i rule: find_marker.induct)
  case (1 a b r)
  then show ?case
    by (cases "(a, b) = marker") (auto simp: marker_at_def)
qed simp_all

lemma find_marker_Some_first: "find_marker r = Some i \<Longrightarrow> j < i \<Longrightarrow> \<not> marker_at r j"
proof (induction r arbitrary: i j rule: find_marker.induct)
  case (1 a b r)
  show ?case
  proof (cases "(a, b) = marker")
    case True
    with 1 show ?thesis by simp
  next
    case False
    with "1.prems" obtain k where k: "find_marker (b # r) = Some k" "i = Suc k"
      by auto
    show ?thesis
    proof (cases j)
      case 0
      with False show ?thesis by (simp add: marker_at_def)
    next
      case (Suc j')
      with k "1.prems" have "\<not> marker_at (b # r) j'"
        using "1.IH" [OF False k(1)] by simp
      with Suc show ?thesis by (simp add: marker_at_def)
    qed
  qed
qed simp_all

lemma find_marker_None_iff: "find_marker r = None \<longleftrightarrow> (\<forall>i. \<not> marker_at r i)"
proof (induction r rule: find_marker.induct)
  case (1 a b r)
  show ?case
  proof (cases "(a, b) = marker")
    case True
    then have "marker_at (a # b # r) 0" by (simp add: marker_at_def)
    with True show ?thesis by auto
  next
    case False
    have "(\<forall>i. \<not> marker_at (a # b # r) i) \<longleftrightarrow> (\<forall>i. \<not> marker_at (b # r) i)"
    proof
      assume h: "\<forall>i. \<not> marker_at (a # b # r) i"
      show "\<forall>i. \<not> marker_at (b # r) i"
      proof
        fix i from h have "\<not> marker_at (a # b # r) (Suc i)" by blast
        then show "\<not> marker_at (b # r) i" by (simp add: marker_at_def)
      qed
    next
      assume h: "\<forall>i. \<not> marker_at (b # r) i"
      show "\<forall>i. \<not> marker_at (a # b # r) i"
      proof
        fix i show "\<not> marker_at (a # b # r) i"
          using h [rule_format, of "i - 1"] False by (cases i) (simp_all add: marker_at_def)
      qed
    qed
    with False 1 show ?thesis by simp
  qed
qed (simp_all add: marker_at_def)

lemma find_marker_append_marker:
  "find_marker pre = None \<Longrightarrow> find_marker (pre @ 0x41 # 0x34 # rest) = Some (length pre)"
  by (induction pre rule: find_marker.induct) (auto simp: marker_def split: if_splits)

subsection \<open>The loop refines the specification\<close>

lemma sync_find_marker:
  "sync (a, p) r =
     (case find_marker (p # r) of None \<Rightarrow> Inl UnwrapOnNone | Some i \<Rightarrow> Inr (drop (Suc i) r))"
proof (induction r arbitrary: a p)
  case Nil
  show ?case by simp
next
  case (Cons b r)
  show ?case
    by (cases "(p, b) = marker") (simp_all add: Cons.IH [of p b] split: option.split)
qed

lemma find_marker_0_Cons: "find_marker (0 # r) = map_option Suc (find_marker r)"
  by (cases r) (simp_all add: marker_def)

lemma message_start_eq:
  "message_start r =
     (case find_marker r of None \<Rightarrow> Inl UnwrapOnNone | Some i \<Rightarrow> Inr (drop (i + 2) r))"
  by (simp add: message_start_def sync_find_marker find_marker_0_Cons split: option.split)

lemma message_start_skips [zeo_simps]:
  "find_marker pre = None \<Longrightarrow> message_start (pre @ 0x41 # 0x34 # rest) = Inr rest"
  by (simp add: message_start_eq find_marker_append_marker)

lemma message_start_at_marker [simp]: "message_start (0x41 # 0x34 # rest) = Inr rest"
  using message_start_skips [of "[]" rest] by simp

lemma message_start_Inl_iff:
  "message_start r = Inl p \<longleftrightarrow> find_marker r = None \<and> p = UnwrapOnNone"
  by (auto simp: message_start_eq split: option.splits)

lemma message_start_Inr_iff:
  "message_start r = Inr r' \<longleftrightarrow> (\<exists>i. find_marker r = Some i \<and> r' = drop (i + 2) r)"
  by (auto simp: message_start_eq split: option.splits)

lemma message_start_length:
  "message_start r = Inr r' \<Longrightarrow> length r' + 2 \<le> length r"
  by (auto simp: message_start_Inr_iff dest!: find_marker_Some_marker_at simp: marker_at_def)

lemma message_start_decompose:
  assumes "message_start r = Inr r'"
  obtains pre where "r = pre @ 0x41 # 0x34 # r'" "find_marker pre = None"
proof -
  from assms obtain i where i: "find_marker r = Some i" "r' = drop (i + 2) r"
    by (auto simp: message_start_Inr_iff)
  from i(1) have at: "Suc i < length r" "r ! i = 0x41" "r ! Suc i = 0x34"
    using find_marker_Some_marker_at [of r i] by (simp_all add: marker_at_def marker_def)
  have "r = take i r @ r ! i # r ! Suc i # drop (i + 2) r"
    using at(1) by (metis Cons_nth_drop_Suc Suc_lessD add_2_eq_Suc' append_take_drop_id)
  with at i have r: "r = take i r @ 0x41 # 0x34 # r'" by simp
  have "\<not> marker_at (take i r) j" for j
  proof
    assume "marker_at (take i r) j"
    then have "j < i" "marker_at r j" by (auto simp: marker_at_def)
    with find_marker_Some_first [OF i(1)] show False by blast
  qed
  then have "find_marker (take i r) = None" by (simp add: find_marker_None_iff)
  with r show thesis by (rule that)
qed

text \<open>
  C4. The marker scan stops right after the first marker of the buffer: it
  returns \<open>r'\<close> exactly when the buffer is some bytes without a marker,
  then the marker, then \<open>r'\<close>; and it panics (an unwrap on the emptied
  buffer) exactly when the buffer holds no marker at all. The initial
  window \<open>[0, 0]\<close> never completes a marker.
\<close>

theorem message_start_first_marker:
  "(message_start r = Inr r' \<longleftrightarrow>
      (\<exists>pre. r = pre @ 0x41 # 0x34 # r' \<and> find_marker pre = None))
   \<and> (message_start r = Inl p \<longleftrightarrow> find_marker r = None \<and> p = UnwrapOnNone)"
proof -
  have "message_start r = Inr r'" if "r = pre @ 0x41 # 0x34 # r'" "find_marker pre = None" for pre
    using that by (simp add: message_start_skips)
  moreover have "\<exists>pre. r = pre @ 0x41 # 0x34 # r' \<and> find_marker pre = None"
    if "message_start r = Inr r'"
    using that by (blast elim: message_start_decompose)
  ultimately show ?thesis
    by (auto simp: message_start_Inl_iff)
qed

subsection \<open>Restoring the marker\<close>

lemma restore_start_fits [simp]:
  "length r + 2 \<le> n \<Longrightarrow> restore_start n r = 0x41 # 0x34 # r"
  by (simp add: restore_start_def)

lemma length_restore_start: "length (restore_start n r) \<le> length r + 2"
  by (simp add: restore_start_def length_push_front)

lemma within_capacity_restore_start [simp]: "within_capacity n (restore_start n r)"
  by (simp add: restore_start_def)

text \<open>
  C5. Pushing the marker back undoes the scan: when the buffer has room for
  the two bytes that were popped, the restored buffer starts with the marker
  followed by the bytes that were left, and the next scan stops at the same
  place.
\<close>

theorem restore_start_resyncs:
  "length r + 2 \<le> n \<Longrightarrow>
     restore_start n r = 0x41 # 0x34 # r \<and> message_start (restore_start n r) = Inr r"
  by simp

theorem restore_start_resyncs_witness:
  "length [0xEA, 0x05 :: u8] + 2 \<le> (512 :: nat)
   \<and> restore_start 512 [0xEA, 0x05] = [0x41, 0x34, 0xEA, 0x05]
   \<and> message_start (restore_start 512 [0xEA, 0x05]) = Inr [0xEA, 0x05]"
  using restore_start_resyncs [of "[0xEA, 0x05]" 512] by simp

end
