(* ===== verification/Wire_Format.thy ===== *)
theory Wire_Format
  imports Zeo_Prelude
begin

text \<open>
  The wire format \<^verbatim>\<open>AncllLLTttsidddd\<close> that the base station sends, as
  the protocol description at the head of \<^verbatim>\<open>src/lib.rs\<close> and of \<^verbatim>\<open>parse\<close>
  states it: the marker \<^verbatim>\<open>A4\<close>, a one-byte checksum of the identifier and
  the data bytes, the length of identifier plus data and its bitwise
  inverse (both 16 bits, least significant byte first), the low byte of the
  time, the 16-bit sub-second counter, the sequence number, the identifier
  and the data. \<open>encode\<close> is the sender's side of the protocol, the
  specification against which the decoder is proved; a \<open>frame\<close> is
  \<open>well_formed\<close> when its length fits the 16-bit length field.
\<close>

record frame =
  time_low :: u8
  subsec :: u16
  seq :: u8
  ident :: u8
  payload :: "u8 list"

definition frame_checksum :: "u8 \<Rightarrow> u8 list \<Rightarrow> u8" where
  "frame_checksum i d = i + sum_list d"

definition frame_length :: "frame \<Rightarrow> u16" where
  "frame_length f = of_nat (length (payload f) + 1)"

definition well_formed :: "frame \<Rightarrow> bool" where
  "well_formed f \<longleftrightarrow> length (payload f) + 1 < 2 ^ 16"

definition frame_header :: "frame \<Rightarrow> u8 list" where
  "frame_header f =
     [0x41, 0x34, frame_checksum (ident f) (payload f)]
     @ u16_to_le_bytes (frame_length f)
     @ u16_to_le_bytes (NOT (frame_length f))
     @ [time_low f]
     @ u16_to_le_bytes (subsec f)
     @ [seq f, ident f]"

definition encode :: "frame \<Rightarrow> u8 list" where
  "encode f = frame_header f @ payload f"

lemmas wire_format_defs [zeo_defs] = frame_checksum_def frame_length_def well_formed_def

lemma length_frame_header [simp]: "length (frame_header f) = 12"
  by (simp add: frame_header_def)

lemma length_encode [simp]: "length (encode f) = 12 + length (payload f)"
  by (simp add: encode_def)

lemma frame_header_Cons:
  "frame_header f @ r =
     0x41 # 0x34 # frame_checksum (ident f) (payload f)
     # ucast (frame_length f) # ucast (drop_bit 8 (frame_length f))
     # ucast (NOT (frame_length f)) # ucast (drop_bit 8 (NOT (frame_length f)))
     # time_low f # ucast (subsec f) # ucast (drop_bit 8 (subsec f))
     # seq f # ident f # r"
  by (simp add: frame_header_def u16_to_le_bytes_def)

lemma frame_header_of_fields:
  assumes "frame_length f = u16_from_le_bytes l0 l1"
    and "NOT (frame_length f) = u16_from_le_bytes i0 i1"
    and "subsec f = u16_from_le_bytes s0 s1"
  shows "frame_header f @ r =
     0x41 # 0x34 # frame_checksum (ident f) (payload f) # l0 # l1 # i0 # i1
     # time_low f # s0 # s1 # seq f # ident f # r"
  using assms by (simp add: frame_header_Cons)

lemma take_encode:
  "take (12 + n) (encode f) = frame_header f @ take n (payload f)"
  by (simp add: encode_def)

lemma unat_frame_length:
  "well_formed f \<Longrightarrow> unat (frame_length f) = length (payload f) + 1"
  unfolding well_formed_def frame_length_def by (subst unat_of_nat) simp

lemma frame_length_ge_1: "well_formed f \<Longrightarrow> 1 \<le> frame_length f"
  by (simp add: word_le_nat_alt unat_frame_length)

lemma unat_frame_length_minus_1:
  "well_formed f \<Longrightarrow> unat (frame_length f - 1) = length (payload f)"
  using unat_sub [OF frame_length_ge_1, of f] by (simp add: unat_frame_length)

lemma unat_sum_list_u8: "unat (sum_list bs :: u8) = sum_list (map unat bs) mod 256"
  by (induction bs) (simp_all add: unat_word_ariths mod_add_right_eq)

lemma unat_frame_checksum:
  "unat (frame_checksum i d) = (unat i + sum_list (map unat d)) mod 256"
  by (simp add: frame_checksum_def unat_word_ariths unat_sum_list_u8 mod_add_right_eq)

end
