(* ===== verification/Decoder.thy ===== *)
theory Decoder
  imports Frame_Types Synchronizer Wire_Format
begin

text \<open>
  The frame decoder: one iteration of the \<^verbatim>\<open>while\<close> loop of \<^verbatim>\<open>parse\<close>
  (\<^verbatim>\<open>src/main.rs\<close>). The state \<open>pstate\<close> holds the two \<^verbatim>\<open>&mut\<close>
  parameters of \<^verbatim>\<open>parse\<close> (\<open>ring\<close>, \<open>prev_seqnum\<close>) and its local
  variables; \<open>config\<close> holds the capacity \<open>LEN\<close> of the buffer and whether
  the build checks arithmetic overflow. \<open>parse_frame\<close> is the loop body:
  it scans for the marker, restores it and returns \<open>Ok(None)\<close> when fewer
  than 14 bytes follow, and otherwise runs \<open>decode_frame\<close> (checksum byte,
  length and inverted length, the length check), \<open>decode_body\<close> (time
  low byte, sub-second counter, sequence number with \<open>track_seqnum\<close>, data
  type, the payload loop \<open>read_data\<close>) and \<open>finish_frame\<close> (the
  checksum and data type checks, \<open>update_clock\<close> with the time
  reconciliation \<open>reconcile\<close>, the loop counter). Its result is a panic, or \<open>Return\<close> for a
  \<^verbatim>\<open>return\<close> of \<^verbatim>\<open>parse\<close> (a \<^verbatim>\<open>Result\<close> as a sum, \<open>Inl\<close> the error
  message), or \<open>Continue\<close> for the end of the loop body, each with the
  state it leaves. \<open>flow\<close> has no lines of its own in the source: it is
  the control flow of the loop body (\<^verbatim>\<open>return\<close> or the next iteration) as a
  value. The loop counter \<open>while_counter\<close>, an \<^verbatim>\<open>i32\<close> in the source, is a
  natural number, so its increment never overflows in the model; in a call
  of \<^verbatim>\<open>parse\<close> it never does in the program either
  (\<open>while_counter_fits_i32\<close> in \<open>Parser\<close>), but the lemmas on
  \<open>parse_frame\<close> hold for any value of the counter only in this reading.
\<close>

subsection \<open>State\<close>

record config =
  LEN :: nat
  overflow_checks :: bool

type_synonym packet = "u32 \<times> u16 \<times> u32 \<times> DataType \<times> u8 list"

record pstate =
  ring :: "u8 list"
  prev_seqnum :: "u8 option"
  tt_ss :: u16
  datatype_v :: DataType
  datavec :: "u8 list"
  zeo_version :: u32
  zeo_time_full :: u32
  while_counter :: nat

datatype flow = Continue pstate | Return "string + packet option" pstate

subsection \<open>The steps of the loop body\<close>

definition read_lengths :: "u8 list \<Rightarrow> panic + ((u8 \<times> u16 \<times> u16) \<times> u8 list)" where
  "read_lengths r =
     and_then (pop_u8 r) (\<lambda>(cksum, r).
     and_then (pop_u16 r) (\<lambda>(dl, r).
     and_then (pop_u16 r) (\<lambda>(inv_dl, r).
     Inr ((cksum, dl, inv_dl), r))))"

definition read_timestamp :: "u8 list \<Rightarrow> panic + ((u8 \<times> u16) \<times> u8 list)" where
  "read_timestamp r =
     and_then (pop_u8 r) (\<lambda>(tt_lb, r).
     and_then (pop_u16 r) (\<lambda>(ss, r).
     Inr ((tt_lb, ss), r)))"

text \<open>
  The sequence tracker: the number of lost frames it reports (\<open>None\<close> when
  it reports nothing) and the new value of \<open>prev_seqnum\<close>. The reported
  number is \<open>seqnum - prev_seq1\<close> in \<open>u8\<close>, which panics under overflow
  checks when the new number is the smaller one.
\<close>

definition track_seqnum :: "bool \<Rightarrow> u8 option \<Rightarrow> u8 \<Rightarrow> panic + (u8 option \<times> u8 option)" where
  "track_seqnum checks prev seqnum =
     and_then
       (case prev of
          None \<Rightarrow> Inr None
        | Some pseq \<Rightarrow>
            (let prev_seq1 = pseq + 1
             in if prev_seq1 \<noteq> seqnum
                then and_then (sub_op checks seqnum prev_seq1) (\<lambda>lost. Inr (Some lost))
                else Inr None))
       (\<lambda>lost. Inr (lost, Some seqnum))"

primrec read_data :: "nat \<Rightarrow> u8 list \<Rightarrow> u8 list \<Rightarrow> u8 list \<times> u8 list" where
  "read_data 0 r dv = (dv, r)"
| "read_data (Suc n) r dv =
     (case pop_front r of
        (Some byte, r') \<Rightarrow> read_data n r' (push_back byte dv)
      | (None, r') \<Rightarrow> read_data n r' dv)"

primrec sum_u32 :: "bool \<Rightarrow> u32 \<Rightarrow> u8 list \<Rightarrow> panic + u32" where
  "sum_u32 checks acc [] = Inr acc"
| "sum_u32 checks acc (b # bs) =
     and_then (add_op checks acc (ucast b)) (\<lambda>acc'. sum_u32 checks acc' bs)"

definition checksum :: "bool \<Rightarrow> u8 \<Rightarrow> u8 list \<Rightarrow> panic + u32" where
  "checksum checks dtype dv =
     and_then (sum_u32 checks 0 dv) (\<lambda>total.
     and_then (add_op checks (ucast dtype) total) (\<lambda>t.
     Inr (t mod 256)))"

definition take_u32 :: "u8 list \<Rightarrow> panic + (u32 \<times> u8 list)" where
  "take_u32 dv =
     and_then (pop_u8 dv) (\<lambda>(b0, dv).
     and_then (pop_u8 dv) (\<lambda>(b1, dv).
     and_then (pop_u8 dv) (\<lambda>(b2, dv).
     (case pop_front dv of (v, dv) \<Rightarrow> Inr (u32_from_le_bytes b0 b1 b2 (unwrap_or v 0), dv)))))"

definition reconcile :: "u32 \<Rightarrow> u8 \<Rightarrow> u32" where
  "reconcile zeo_time tt_lb =
     (if zeo_time AND 0xFF = ucast tt_lb then zeo_time
      else if saturating_sub zeo_time 1 AND 0xFF = ucast tt_lb then saturating_sub zeo_time 1
      else if saturating_add zeo_time 1 AND 0xFF = ucast tt_lb then saturating_add zeo_time 1
      else zeo_time)"

definition update_clock :: "u8 \<Rightarrow> pstate \<Rightarrow> panic + pstate" where
  "update_clock tt_lb s =
     (if datatype_v s = ZeoTimestamp then
        and_then (take_u32 (datavec s)) (\<lambda>(zeo_time, dv).
        Inr (s\<lparr>datavec := dv, zeo_time_full := reconcile zeo_time tt_lb\<rparr>))
      else if datatype_v s = Version then
        and_then (take_u32 (datavec s)) (\<lambda>(v, dv).
        Inr (s\<lparr>datavec := dv, zeo_version := v\<rparr>))
      else Inr s)"

subsection \<open>The loop body\<close>

definition finish_frame :: "config \<Rightarrow> u8 \<Rightarrow> u8 \<Rightarrow> u8 \<Rightarrow> pstate \<Rightarrow> panic + flow" where
  "finish_frame cfg cksum tt_lb dtype s =
     and_then (checksum (overflow_checks cfg) dtype (datavec s)) (\<lambda>c.
     if c \<noteq> ucast cksum then Inr (Return (Inl ''Invalid checksum.'') s)
     else if is_invalid (datatype_v s) then Inr (Return (Inl ''Bad datatype: {{b:02X}}'') s)
     else and_then (update_clock tt_lb s) (\<lambda>s.
          Inr (Continue (s\<lparr>while_counter := while_counter s + 1\<rparr>))))"

definition decode_body :: "config \<Rightarrow> u8 \<Rightarrow> u16 \<Rightarrow> pstate \<Rightarrow> panic + flow" where
  "decode_body cfg cksum dl s =
     and_then (read_timestamp (ring s)) (\<lambda>((tt_lb, ss), r).
     and_then (pop_u8 r) (\<lambda>(seqnum, r).
     and_then (track_seqnum (overflow_checks cfg) (prev_seqnum s) seqnum) (\<lambda>(lost, prev).
     and_then (pop_u8 r) (\<lambda>(dtype, r).
     and_then (sub_op (overflow_checks cfg) dl 1) (\<lambda>datalen.
     (case read_data (unat datalen) r [] of (dv, r) \<Rightarrow>
        finish_frame cfg cksum tt_lb dtype
          (s\<lparr>ring := r, prev_seqnum := prev, tt_ss := ss,
             datatype_v := DataType_from dtype, datavec := dv\<rparr>)))))))"

definition decode_frame :: "config \<Rightarrow> pstate \<Rightarrow> panic + flow" where
  "decode_frame cfg s =
     and_then (read_lengths (ring s)) (\<lambda>((cksum, dl, inv_dl), r).
     if dl \<noteq> NOT inv_dl then Inr (Return (Inl ''Invalid message length.'') (s\<lparr>ring := r\<rparr>))
     else decode_body cfg cksum dl (s\<lparr>ring := r\<rparr>))"

definition parse_frame :: "config \<Rightarrow> pstate \<Rightarrow> panic + flow" where
  "parse_frame cfg s =
     and_then (message_start (ring s)) (\<lambda>r.
     if length r < 14 then Inr (Return (Inr None) (s\<lparr>ring := restore_start (LEN cfg) r\<rparr>))
     else decode_frame cfg (s\<lparr>ring := r\<rparr>))"

definition init_state :: "u8 option \<Rightarrow> u8 list \<Rightarrow> pstate" where
  "init_state prev r =
     \<lparr>ring = r, prev_seqnum = prev, tt_ss = 0, datatype_v = DataType.Invalid 255,
      datavec = [], zeo_version = 0, zeo_time_full = 0, while_counter = 0\<rparr>"

text \<open>When the sequence tracker does not panic on a sequence number.\<close>

definition seq_safe :: "bool \<Rightarrow> u8 option \<Rightarrow> u8 \<Rightarrow> bool" where
  "seq_safe checks prev q = (case prev of None \<Rightarrow> True | Some p \<Rightarrow> \<not> checks \<or> p + 1 \<le> q)"

text \<open>The state a result of the loop body carries.\<close>

definition state_of :: "flow \<Rightarrow> pstate" where
  "state_of fl = (case fl of Continue s \<Rightarrow> s | Return res s \<Rightarrow> s)"

lemmas decoder_defs [zeo_defs] =
  read_lengths_def read_timestamp_def track_seqnum_def checksum_def take_u32_def
  update_clock_def finish_frame_def decode_body_def decode_frame_def parse_frame_def

subsection \<open>Reading fields\<close>

lemma read_lengths_Cons [simp]:
  "read_lengths (c # l0 # l1 # i0 # i1 # r) =
     Inr ((c, u16_from_le_bytes l0 l1, u16_from_le_bytes i0 i1), r)"
  by (simp add: read_lengths_def)

lemma read_timestamp_Cons [simp]:
  "read_timestamp (t # s0 # s1 # r) = Inr ((t, u16_from_le_bytes s0 s1), r)"
  by (simp add: read_timestamp_def)

lemma read_data_eq [simp]: "read_data n r dv = (dv @ take n r, drop n r)"
proof (induction n arbitrary: r dv)
  case (Suc n)
  show ?case by (cases r) (simp_all add: Suc push_back_def)
qed simp

lemma take_u32_simps [simp]:
  "take_u32 (b0 # b1 # b2 # b3 # dv) = Inr (u32_from_le_bytes b0 b1 b2 b3, dv)"
  "take_u32 [b0, b1, b2] = Inr (u32_from_le_bytes b0 b1 b2 0, [])"
  "take_u32 [b0, b1] = Inl UnwrapOnNone"
  "take_u32 [b0] = Inl UnwrapOnNone"
  "take_u32 [] = Inl UnwrapOnNone"
  by (simp_all add: take_u32_def)

lemma take_u32_short: "length dv < 3 \<Longrightarrow> take_u32 dv = Inl UnwrapOnNone"
  by (auto simp: less_Suc_eq numeral_3_eq_3 length_Suc_conv)

lemma take_u32_Inr:
  assumes "take_u32 dv = Inr (v, dv')"
  shows "dv' = drop 4 dv"
proof (cases "length dv < 3")
  case True
  with assms show ?thesis by (simp add: take_u32_short)
next
  case False
  then obtain b0 b1 b2 r where "dv = b0 # b1 # b2 # r"
    by (auto simp: not_less numeral_3_eq_3 Suc_le_length_iff)
  with assms show ?thesis by (cases r) auto
qed

subsection \<open>The sequence tracker\<close>

lemma track_seqnum_None [simp]: "track_seqnum checks None q = Inr (None, Some q)"
  by (simp add: track_seqnum_def)

lemma track_seqnum_next [simp]: "track_seqnum checks (Some p) (p + 1) = Inr (None, Some (p + 1))"
  by (simp add: track_seqnum_def)

lemma track_seqnum_gap:
  "p + 1 \<noteq> q \<Longrightarrow> \<not> checks \<or> p + 1 \<le> q
   \<Longrightarrow> track_seqnum checks (Some p) q = Inr (Some (q - (p + 1)), Some q)"
  by (auto simp: track_seqnum_def)

lemma track_seqnum_panics:
  "track_seqnum checks prev q = Inl e \<longleftrightarrow>
     checks \<and> e = SubtractOverflow \<and> (\<exists>p. prev = Some p \<and> q < p + 1)"
  by (auto simp: track_seqnum_def sub_op_def Let_def and_then_eq_Inl_iff split: option.splits)

lemma track_seqnum_Inr:
  "track_seqnum checks prev q = Inr (lost, prev') \<Longrightarrow> prev' = Some q"
  by (auto simp: track_seqnum_def Let_def and_then_eq_Inr_iff split: option.splits if_splits)

subsection \<open>The checksum\<close>

lemma sum_list_unat_le: "sum_list (map unat (bs :: u8 list)) \<le> 255 * length bs"
proof (induction bs)
  case (Cons b bs)
  have "unat b \<le> 255" using unat_u8_less [of b] by arith
  with Cons show ?case by simp
qed simp

lemma sum_u32_in_range:
  "unat acc + sum_list (map unat bs) < 2 ^ 32
   \<Longrightarrow> sum_u32 checks acc bs = Inr (acc + sum_list (map ucast bs))
       \<and> unat (acc + sum_list (map ucast bs)) = unat acc + sum_list (map unat bs)"
proof (induction bs arbitrary: acc)
  case Nil
  show ?case by simp
next
  case (Cons b bs)
  from Cons.prems have small: "unat acc + unat (ucast b :: u32) < 2 ^ LENGTH(32)"
    by simp
  then have u: "unat (acc + ucast b) = unat acc + unat b"
    by (simp add: unat_add_lem [THEN iffD1])
  with Cons.prems have "unat (acc + ucast b) + sum_list (map unat bs) < 2 ^ 32"
    by simp
  from Cons.IH [OF this] small u show ?case
    by (simp add: add.assoc)
qed

lemma checksum_in_range:
  assumes "length dv \<le> 65535"
  shows "checksum checks dtype dv = Inr (ucast (frame_checksum dtype dv))"
proof -
  have le: "sum_list (map unat dv) \<le> 255 * 65535"
    using sum_list_unat_le [of dv] assms by simp
  then have "unat (0 :: u32) + sum_list (map unat dv) < 2 ^ 32" by simp
  from sum_u32_in_range [OF this, of checks]
  have s: "sum_u32 checks 0 dv = Inr (sum_list (map ucast dv))"
    and u: "unat (sum_list (map ucast dv) :: u32) = sum_list (map unat dv)"
    by simp_all
  have "sum_list (map unat dv) \<le> 16711425"
    using le by simp
  then have "unat dtype + sum_list (map unat dv) < 4294967296"
    using unat_u8_less [of dtype] by arith
  then have small: "unat (ucast dtype :: u32) + unat (sum_list (map ucast dv) :: u32) < 2 ^ LENGTH(32)"
    by (simp add: u)
  then have t: "unat (ucast dtype + sum_list (map ucast dv) :: u32) = unat dtype + sum_list (map unat dv)"
    by (simp add: unat_add_lem [THEN iffD1] u)
  have "(ucast dtype + sum_list (map ucast dv) :: u32) mod 256 = ucast (frame_checksum dtype dv)"
    by (rule word_unat_eq_iff [THEN iffD2]) (simp add: unat_mod t unat_frame_checksum)
  with s small show ?thesis
    by (simp add: checksum_def)
qed


lemma length_take_u16 [simp]: "length (take (unat (w :: u16)) r) \<le> 65535"
proof -
  have "unat w < 65536" using unsigned_less [of w, where 'a = nat] by simp
  then show ?thesis by simp
qed

subsection \<open>The loop body on a buffer of known shape\<close>

lemma finish_frame_eq:
  "length (datavec s) \<le> 65535 \<Longrightarrow>
   finish_frame cfg cksum tt_lb dtype s =
     (if frame_checksum dtype (datavec s) \<noteq> cksum then Inr (Return (Inl ''Invalid checksum.'') s)
      else if is_invalid (datatype_v s) then Inr (Return (Inl ''Bad datatype: {{b:02X}}'') s)
      else and_then (update_clock tt_lb s) (\<lambda>s.
           Inr (Continue (s\<lparr>while_counter := while_counter s + 1\<rparr>))))"
  by (simp add: finish_frame_def checksum_in_range)

lemma decode_body_Cons:
  "ring s = t # s0 # s1 # q # d # r \<Longrightarrow>
   decode_body cfg cksum dl s =
     and_then (track_seqnum (overflow_checks cfg) (prev_seqnum s) q) (\<lambda>(lost, prev).
     and_then (sub_op (overflow_checks cfg) dl 1) (\<lambda>datalen.
       finish_frame cfg cksum t d
         (s\<lparr>ring := drop (unat datalen) r, prev_seqnum := prev,
            tt_ss := u16_from_le_bytes s0 s1, datatype_v := DataType_from d,
            datavec := take (unat datalen) r\<rparr>)))"
  by (simp add: decode_body_def)

lemma decode_frame_Cons:
  "ring s = c # l0 # l1 # i0 # i1 # r \<Longrightarrow>
   decode_frame cfg s =
     (if u16_from_le_bytes l0 l1 \<noteq> NOT (u16_from_le_bytes i0 i1)
      then Inr (Return (Inl ''Invalid message length.'') (s\<lparr>ring := r\<rparr>))
      else decode_body cfg c (u16_from_le_bytes l0 l1) (s\<lparr>ring := r\<rparr>))"
  by (simp add: decode_frame_def)

lemma parse_frame_at_marker:
  "ring s = pre @ 0x41 # 0x34 # r \<Longrightarrow> find_marker pre = None \<Longrightarrow>
   parse_frame cfg s =
     (if length r < 14 then Inr (Return (Inr None) (s\<lparr>ring := restore_start (LEN cfg) r\<rparr>))
      else decode_frame cfg (s\<lparr>ring := r\<rparr>))"
  by (simp add: parse_frame_def message_start_skips)

lemma track_seqnum_safe:
  "seq_safe checks prev q \<Longrightarrow> \<exists>lost. track_seqnum checks prev q = Inr (lost, Some q)"
  by (cases prev) (auto simp: seq_safe_def track_seqnum_def Let_def)

lemma decode_header:
  assumes wf: "well_formed f" and len: "4 \<le> length r"
    and safe: "seq_safe (overflow_checks cfg) (prev_seqnum s) (seq f)"
    and pre: "find_marker pre = None" and r: "ring s = pre @ frame_header f @ r"
  shows "parse_frame cfg s =
     finish_frame cfg (frame_checksum (ident f) (payload f)) (time_low f) (ident f)
       (s\<lparr>ring := drop (length (payload f)) r, prev_seqnum := Some (seq f),
          tt_ss := subsec f, datatype_v := DataType_from (ident f),
          datavec := take (length (payload f)) r\<rparr>)"
proof -
  from safe obtain lost where
    t: "track_seqnum (overflow_checks cfg) (prev_seqnum s) (seq f) = Inr (lost, Some (seq f))"
    using track_seqnum_safe by blast
  note [simp] = frame_length_ge_1 [OF wf] unat_frame_length_minus_1 [OF wf]
  show ?thesis
    using len
    by (simp add: parse_frame_at_marker [OF r [unfolded frame_header_Cons] pre]
        decode_frame_Cons decode_body_Cons t)
qed

lemma decode_encoded:
  assumes "well_formed f" and "4 \<le> length (payload f) + length rest"
    and "seq_safe (overflow_checks cfg) (prev_seqnum s) (seq f)"
    and "find_marker pre = None" and "ring s = pre @ encode f @ rest"
  shows "parse_frame cfg s =
     finish_frame cfg (frame_checksum (ident f) (payload f)) (time_low f) (ident f)
       (s\<lparr>ring := rest, prev_seqnum := Some (seq f), tt_ss := subsec f,
          datatype_v := DataType_from (ident f), datavec := payload f\<rparr>)"
  using decode_header [of f "payload f @ rest" cfg s pre] assms by (simp add: encode_def)

lemma update_clock_Inr:
  assumes "update_clock t s = Inr s'"
  shows "ring s' = ring s" "prev_seqnum s' = prev_seqnum s" "tt_ss s' = tt_ss s"
    "datatype_v s' = datatype_v s"
    "datavec s' = (if datatype_v s = ZeoTimestamp \<or> datatype_v s = Version
       then drop 4 (datavec s) else datavec s)"
  using assms
  by (auto simp: update_clock_def and_then_eq_Inr_iff dest: take_u32_Inr split: if_splits)

lemma update_clock_time_stamp:
  "datatype_v s = ZeoTimestamp \<Longrightarrow> datavec s = u32_to_le_bytes t @ extra \<Longrightarrow>
   update_clock b s = Inr (s\<lparr>datavec := extra, zeo_time_full := reconcile t b\<rparr>)"
  by (simp add: update_clock_def u32_to_le_bytes_def)

lemma update_clock_version:
  "datatype_v s = Version \<Longrightarrow> datavec s = u32_to_le_bytes v @ extra \<Longrightarrow>
   update_clock b s = Inr (s\<lparr>datavec := extra, zeo_version := v\<rparr>)"
  by (simp add: update_clock_def u32_to_le_bytes_def)

subsection \<open>The loop body after any marker\<close>

lemma header_shape:
  "10 \<le> length r \<Longrightarrow>
   \<exists>c l0 l1 i0 i1 t s0 s1 q d r'. r = c # l0 # l1 # i0 # i1 # t # s0 # s1 # q # d # r'"
  by (auto simp: numeral_eq_Suc Suc_le_length_iff)

lemma parse_frame_Cons:
  assumes "message_start (ring s) = Inr (c # l0 # l1 # i0 # i1 # t # s0 # s1 # q # d # r)"
    and "4 \<le> length r"
  shows "parse_frame cfg s =
     (if u16_from_le_bytes l0 l1 \<noteq> NOT (u16_from_le_bytes i0 i1)
      then Inr (Return (Inl ''Invalid message length.'')
                 (s\<lparr>ring := t # s0 # s1 # q # d # r\<rparr>))
      else and_then (track_seqnum (overflow_checks cfg) (prev_seqnum s) q) (\<lambda>(lost, prev).
           and_then (sub_op (overflow_checks cfg) (u16_from_le_bytes l0 l1) 1) (\<lambda>datalen.
             finish_frame cfg c t d
               (s\<lparr>ring := drop (unat datalen) r, prev_seqnum := prev,
                  tt_ss := u16_from_le_bytes s0 s1, datatype_v := DataType_from d,
                  datavec := take (unat datalen) r\<rparr>))))"
  using assms by (simp add: parse_frame_def decode_frame_Cons decode_body_Cons)

lemma parse_frame_short:
  "message_start (ring s) = Inr r \<Longrightarrow> length r < 14 \<Longrightarrow>
   parse_frame cfg s = Inr (Return (Inr None) (s\<lparr>ring := restore_start (LEN cfg) r\<rparr>))"
  by (simp add: parse_frame_def)

lemma parse_frame_no_marker:
  "find_marker (ring s) = None \<Longrightarrow> parse_frame cfg s = Inl UnwrapOnNone"
  by (simp add: parse_frame_def message_start_eq)

lemma state_of_simps [simp]: "state_of (Continue s) = s" "state_of (Return res s) = s"
  by (simp_all add: state_of_def)

lemma finish_frame_ring:
  "finish_frame cfg c t d s = Inr fl \<Longrightarrow> ring (state_of fl) = ring s"
  by (auto simp: finish_frame_def update_clock_def and_then_eq_Inr_iff split: if_splits)

text \<open>
  The three ways the loop body ends without a panic: the push-back when
  fewer than 14 bytes follow the marker, the length mismatch, and a frame
  whose header was read and that \<open>finish_frame\<close> completes.
\<close>

lemma update_clock_counter:
  "update_clock t s = Inr s' \<Longrightarrow> while_counter s' = while_counter s"
  by (auto simp: update_clock_def and_then_eq_Inr_iff split: if_splits)

lemma finish_frame_Inr_iff:
  "finish_frame cfg c t d s = Inr fl \<longleftrightarrow>
     (\<exists>k. checksum (overflow_checks cfg) d (datavec s) = Inr k \<and>
       (if k \<noteq> ucast c then fl = Return (Inl ''Invalid checksum.'') s
        else if is_invalid (datatype_v s) then fl = Return (Inl ''Bad datatype: {{b:02X}}'') s
        else \<exists>s'. update_clock t s = Inr s' \<and> fl = Continue (s'\<lparr>while_counter := while_counter s' + 1\<rparr>)))"
  by (auto simp: finish_frame_def and_then_eq_Inr_iff)

lemma finish_frame_counter:
  "finish_frame cfg c t d s = Inr fl \<Longrightarrow>
   while_counter (state_of fl) =
     (case fl of Continue s' \<Rightarrow> while_counter s + 1 | Return res s' \<Rightarrow> while_counter s)"
  by (auto simp: finish_frame_Inr_iff update_clock_counter split: if_splits)

lemma parse_frame_Inr_cases [consumes 1, case_names short mismatch frame]:
  assumes "parse_frame cfg s = Inr fl"
  obtains r where "message_start (ring s) = Inr r" "length r < 14"
      "fl = Return (Inr None) (s\<lparr>ring := restore_start (LEN cfg) r\<rparr>)"
  | c l0 l1 i0 i1 r where "message_start (ring s) = Inr (c # l0 # l1 # i0 # i1 # r)"
      "u16_from_le_bytes l0 l1 \<noteq> NOT (u16_from_le_bytes i0 i1)"
      "fl = Return (Inl ''Invalid message length.'') (s\<lparr>ring := r\<rparr>)"
  | c l0 l1 i0 i1 t s0 s1 q d r lost n where
      "message_start (ring s) = Inr (c # l0 # l1 # i0 # i1 # t # s0 # s1 # q # d # r)"
      "u16_from_le_bytes l0 l1 = NOT (u16_from_le_bytes i0 i1)"
      "track_seqnum (overflow_checks cfg) (prev_seqnum s) q = Inr (lost, Some q)"
      "sub_op (overflow_checks cfg) (u16_from_le_bytes l0 l1) 1 = Inr n"
      "finish_frame cfg c t d
         (s\<lparr>ring := drop (unat n) r, prev_seqnum := Some q, tt_ss := u16_from_le_bytes s0 s1,
            datatype_v := DataType_from d, datavec := take (unat n) r\<rparr>) = Inr fl"
      "4 \<le> length r"
proof -
  from assms obtain r where r: "message_start (ring s) = Inr r"
    by (auto simp: parse_frame_def and_then_eq_Inr_iff)
  show thesis
  proof (cases "length r < 14")
    case True
    with assms r have "fl = Return (Inr None) (s\<lparr>ring := restore_start (LEN cfg) r\<rparr>)"
      by (simp add: parse_frame_short)
    with r True show thesis by (rule that(1))
  next
    case False
    then obtain c l0 l1 i0 i1 t s0 s1 q d r' where
      shape: "r = c # l0 # l1 # i0 # i1 # t # s0 # s1 # q # d # r'" and len: "4 \<le> length r'"
      using header_shape [of r] by auto
    note eq = parse_frame_Cons [OF r [unfolded shape] len, of cfg]
    show thesis
    proof (cases "u16_from_le_bytes l0 l1 = NOT (u16_from_le_bytes i0 i1)")
      case False
      with assms eq
      have "fl = Return (Inl ''Invalid message length.'') (s\<lparr>ring := t # s0 # s1 # q # d # r'\<rparr>)"
        by simp
      with r [unfolded shape] False show thesis by (rule that(2))
    next
      case True
      with assms eq obtain lost prev n where
        t: "track_seqnum (overflow_checks cfg) (prev_seqnum s) q = Inr (lost, prev)"
        and n: "sub_op (overflow_checks cfg) (u16_from_le_bytes l0 l1) 1 = Inr n"
        and f: "finish_frame cfg c t d
         (s\<lparr>ring := drop (unat n) r', prev_seqnum := prev, tt_ss := u16_from_le_bytes s0 s1,
            datatype_v := DataType_from d, datavec := take (unat n) r'\<rparr>) = Inr fl"
        by (auto simp: and_then_eq_Inr_iff)
      from t have "prev = Some q" by (rule track_seqnum_Inr)
      with r [unfolded shape] True t n f len show thesis by (blast intro: that(3))
    qed
  qed
qed

lemma parse_frame_Continue_shrinks:
  assumes "parse_frame cfg s = Inr (Continue s')"
  shows "length (ring s') + 12 \<le> length (ring s)"
  using assms
proof (cases rule: parse_frame_Inr_cases)
  case (frame c l0 l1 i0 i1 t s0 s1 q d r lost n)
  from finish_frame_ring [OF frame(5)] have "length (ring s') \<le> length r" by simp
  with message_start_length [OF frame(1)] show ?thesis by simp
qed simp_all

lemma parse_frame_counter:
  assumes "parse_frame cfg s = Inr fl"
  shows "while_counter (state_of fl) =
     (case fl of Continue s' \<Rightarrow> while_counter s + 1 | Return res s' \<Rightarrow> while_counter s)"
  using assms
proof (cases rule: parse_frame_Inr_cases)
  case (frame c l0 l1 i0 i1 t s0 s1 q d r lost n)
  from finish_frame_counter [OF frame(5)] show ?thesis by (cases fl) simp_all
qed simp_all

lemma parse_frame_Return_Ok:
  assumes "parse_frame cfg s = Inr (Return (Inr x) s')"
  shows "length (ring s') \<le> 15"
  using assms
proof (cases rule: parse_frame_Inr_cases)
  case (short r)
  with length_restore_start [of "LEN cfg" r] show ?thesis by simp
next
  case (frame c l0 l1 i0 i1 t s0 s1 q d r lost n)
  then show ?thesis by (auto simp: finish_frame_Inr_iff split: if_splits)
qed simp

subsection \<open>When the loop body panics\<close>

lemma finish_frame_panics:
  "length (datavec s) \<le> 65535 \<Longrightarrow>
   finish_frame cfg c t d s = Inl p \<longleftrightarrow>
     p = UnwrapOnNone \<and> frame_checksum d (datavec s) = c
     \<and> (datatype_v s = ZeoTimestamp \<or> datatype_v s = Version) \<and> length (datavec s) < 3"
proof -
  have "take_u32 dv = Inl p \<longleftrightarrow> p = UnwrapOnNone \<and> length dv < 3" for dv
  proof (cases "length dv < 3")
    case True
    then show ?thesis by (auto simp: take_u32_short)
  next
    case False
    then obtain b0 b1 b2 r where "dv = b0 # b1 # b2 # r"
      by (auto simp: not_less numeral_3_eq_3 Suc_le_length_iff)
    with False show ?thesis by (cases r) simp_all
  qed
  then show "length (datavec s) \<le> 65535 \<Longrightarrow> ?thesis"
    by (auto simp: finish_frame_eq update_clock_def and_then_eq_Inl_iff)
qed

lemma min_length_unat_u16 [simp]: "min (length r) (unat (w :: u16)) \<le> 65535"
  using length_take_u16 [of w r] by simp

lemma seq_safe_iff:
  "seq_safe checks prev q \<longleftrightarrow> \<not> (checks \<and> (\<exists>p. prev = Some p \<and> q < p + 1))"
  by (auto simp: seq_safe_def not_less split: option.splits)

lemma track_seqnum_unsafe:
  "\<not> seq_safe checks prev q \<Longrightarrow> track_seqnum checks prev q = Inl SubtractOverflow"
  using track_seqnum_panics [of checks prev q SubtractOverflow] by (simp add: seq_safe_iff)

lemma sub_op_1:
  "sub_op checks (dl :: u16) 1 = (if checks \<and> dl = 0 then Inl SubtractOverflow else Inr (dl - 1))"
  by (simp add: sub_op_def word_less_1)

lemma parse_frame_Inl_iff:
  assumes "message_start (ring s) = Inr (c # l0 # l1 # i0 # i1 # t # s0 # s1 # q # d # r)"
    and "4 \<le> length r"
    and "dl = u16_from_le_bytes l0 l1" and "dl = NOT (u16_from_le_bytes i0 i1)"
  shows "parse_frame cfg s = Inl p \<longleftrightarrow>
     (if overflow_checks cfg \<and> ((\<exists>pq. prev_seqnum s = Some pq \<and> q < pq + 1) \<or> dl = 0)
      then p = SubtractOverflow
      else p = UnwrapOnNone \<and> frame_checksum d (take (unat (dl - 1)) r) = c
        \<and> (d = 0x8A \<or> d = 0x03) \<and> length (take (unat (dl - 1)) r) < 3)"
proof (cases "seq_safe (overflow_checks cfg) (prev_seqnum s) q")
  case False
  with assms(3,4) show ?thesis
    by (auto simp: parse_frame_Cons [OF assms(1,2)] track_seqnum_unsafe seq_safe_iff)
next
  case True
  then obtain lost where
    "track_seqnum (overflow_checks cfg) (prev_seqnum s) q = Inr (lost, Some q)"
    using track_seqnum_safe by blast
  with True assms(3,4) show ?thesis
    by (auto simp: parse_frame_Cons [OF assms(1,2)] sub_op_1 finish_frame_panics seq_safe_iff)
qed

lemma parse_frame_Inl_cases:
  assumes "parse_frame cfg s = Inl p"
  shows "p = UnwrapOnNone \<or> p = SubtractOverflow \<and> overflow_checks cfg"
proof (cases "message_start (ring s)")
  case (Inl e)
  then have "e = UnwrapOnNone" by (simp add: message_start_Inl_iff)
  with Inl assms show ?thesis by (simp add: parse_frame_def)
next
  case (Inr r)
  with assms have "\<not> length r < 14"
    by (auto simp: parse_frame_short)
  then obtain c l0 l1 i0 i1 t s0 s1 q d r' where
    shape: "r = c # l0 # l1 # i0 # i1 # t # s0 # s1 # q # d # r'" and len: "4 \<le> length r'"
    using header_shape [of r] by auto
  from assms have "u16_from_le_bytes l0 l1 = NOT (u16_from_le_bytes i0 i1)"
    by (auto simp: parse_frame_Cons [OF Inr [unfolded shape] len] split: if_splits)
  from parse_frame_Inl_iff [OF Inr [unfolded shape] len refl this, of cfg p] assms
  show ?thesis by (simp split: if_splits)
qed

subsection \<open>What the loop body does to the buffer\<close>

lemma parse_frame_ring_drop:
  assumes cap: "within_capacity (LEN cfg) (ring s)" and res: "parse_frame cfg s = Inr fl"
  shows "\<exists>k. ring (state_of fl) = drop k (ring s)"
  using res
proof (cases rule: parse_frame_Inr_cases)
  case (short r)
  from short(1) obtain pre where pre: "ring s = pre @ 0x41 # 0x34 # r"
    by (rule message_start_decompose)
  with cap have "length r + 2 \<le> LEN cfg" by (simp add: within_capacity_def)
  with short(3) pre have "ring (state_of fl) = drop (length pre) (ring s)" by simp
  then show ?thesis ..
next
  case (mismatch c l0 l1 i0 i1 r)
  from mismatch(1) obtain pre where "ring s = pre @ 0x41 # 0x34 # c # l0 # l1 # i0 # i1 # r"
    by (rule message_start_decompose)
  with mismatch(3) have "ring (state_of fl) = drop (length pre + 7) (ring s)" by simp
  then show ?thesis ..
next
  case (frame c l0 l1 i0 i1 t s0 s1 q d r lost n)
  from frame(1) obtain pre where
    pre: "ring s = pre @ 0x41 # 0x34 # c # l0 # l1 # i0 # i1 # t # s0 # s1 # q # d # r"
    by (rule message_start_decompose)
  then have r: "r = drop (length pre + 12) (ring s)" by simp
  from finish_frame_ring [OF frame(5)] have "ring (state_of fl) = drop (unat n) r" by simp
  also have "\<dots> = drop (unat n + (length pre + 12)) (ring s)" by (subst r) simp
  finally show ?thesis ..
qed

lemma parse_frame_within_capacity:
  assumes "within_capacity (LEN cfg) (ring s)" and "parse_frame cfg s = Inr fl"
  shows "within_capacity (LEN cfg) (ring (state_of fl))"
proof -
  from parse_frame_ring_drop [OF assms] obtain k where "ring (state_of fl) = drop k (ring s)" ..
  with assms(1) show ?thesis by (simp add: within_capacity_def)
qed

end
