(* ===== verification/Tracking.thy ===== *)
theory Tracking
  imports Decoder
begin

text \<open>
  The sequence tracker and the timestamp reconciler of \<^verbatim>\<open>parse\<close>
  (\<^verbatim>\<open>src/main.rs\<close>) on their own: what \<open>track_seqnum\<close> reports for
  every pair of sequence numbers, where it panics, and that \<open>reconcile\<close>
  stays within one second of the clock value it is given and recovers the
  time whose low byte the frame carries.
\<close>

subsection \<open>The sequence tracker\<close>

text \<open>
  C19. When the tracker does not panic it reports nothing for the first
  frame and for the successor (modulo 256) of the previous sequence
  number, and otherwise the difference between the number and that
  successor; \<open>prev_seqnum\<close> always becomes the new number. After 5 and 6
  the number 8 reports one lost frame, and 0 follows 255 without a report.
\<close>

theorem track_seqnum_reports:
  "seq_safe checks prev q \<Longrightarrow>
   track_seqnum checks prev q =
     Inr (case prev of None \<Rightarrow> None | Some p \<Rightarrow> if p + 1 = q then None else Some (q - (p + 1)), Some q)"
  by (auto simp: seq_safe_def track_seqnum_def Let_def split: option.splits)

theorem track_seqnum_reports_witness:
  "track_seqnum True (Some 5) 6 = Inr (None, Some 6)
   \<and> track_seqnum True (Some 6) 8 = Inr (Some 1, Some 8)
   \<and> track_seqnum True (Some 255) 0 = Inr (None, Some 0)"
  using track_seqnum_reports [of True "Some 5" 6] track_seqnum_reports [of True "Some 6" 8]
    track_seqnum_reports [of True "Some 255" 0]
  by (simp add: seq_safe_def)

text \<open>
  C30. A sequence number below the successor of the previous one (a frame
  received twice, or more than the distance to 255 lost) panics with a
  subtraction overflow in a build with overflow checks, when the number of
  lost frames is computed for the report; without the checks the
  difference wraps.
\<close>

theorem track_seqnum_backwards:
  "q < p + 1 \<Longrightarrow>
   track_seqnum True (Some p) q = Inl SubtractOverflow
   \<and> track_seqnum False (Some p) q = Inr (Some (q - (p + 1)), Some q)"
  by (auto simp: track_seqnum_def Let_def sub_op_def)

theorem track_seqnum_backwards_witness:
  "track_seqnum True (Some 8) 5 = Inl SubtractOverflow
   \<and> track_seqnum False (Some 8) 5 = Inr (Some 252, Some 5)"
  using track_seqnum_backwards [of 5 8] by simp

subsection \<open>The timestamp reconciler\<close>

lemma ucast_u32_u8_eq_iff: "ucast (x :: u32) = (b :: u8) \<longleftrightarrow> unat x mod 256 = unat b"
proof -
  have "unat (ucast x :: u8) = unat x mod 256"
    by (simp add: unsigned_ucast_eq take_bit_eq_mod)
  then show ?thesis by (auto simp: word_unat_eq_iff)
qed

lemma unat_u32_less: "unat (w :: u32) < 4294967296"
  using unsigned_less [of w, where 'a = nat] by simp

lemma mod_256_Suc_neq: "Suc n mod 256 \<noteq> n mod 256" "Suc (Suc n) mod 256 \<noteq> n mod 256"
  by (simp_all add: mod_Suc)

lemma reconcile_eq:
  "reconcile z b =
     (if unat z mod 256 = unat b then z
      else if (unat z - 1) mod 256 = unat b then saturating_sub z 1
      else if min (unat z + 1) 4294967295 mod 256 = unat b then saturating_add z 1
      else z)"
  by (simp add: reconcile_def and_255_eq_ucast_iff ucast_u32_u8_eq_iff unat_saturating_sub
      unat_saturating_add)

lemma unat_reconcile:
  "unat (reconcile z b) =
     (if unat z mod 256 = unat b then unat z
      else if (unat z - 1) mod 256 = unat b then unat z - 1
      else if min (unat z + 1) 4294967295 mod 256 = unat b then min (unat z + 1) 4294967295
      else unat z)"
  by (simp add: reconcile_eq unat_saturating_sub unat_saturating_add)

text \<open>
  C31. The reconciled time is within one second of the clock value of the
  time-stamp frame, and it is that value itself or has the frame's time low
  byte as its low byte.
\<close>

theorem reconcile_within_one:
  "unat z - 1 \<le> unat (reconcile z b) \<and> unat (reconcile z b) \<le> unat z + 1
   \<and> (reconcile z b = z \<or> unat (reconcile z b) mod 256 = unat b)"
  using unat_u32_less [of z]
  by (auto simp: reconcile_eq unat_saturating_sub unat_saturating_add)

text \<open>
  C18. The reconciler recovers the sender's time: a time within one second
  of the clock value whose low byte is the frame's time low byte is the
  result. The clock value \<open>0x1003\<close> with low byte \<open>0x03\<close> gives \<open>0x1003\<close>,
  with \<open>0x04\<close> it gives \<open>0x1004\<close>, with \<open>0x02\<close> it gives \<open>0x1002\<close>.
\<close>

theorem reconcile_recovers:
  assumes "unat t mod 256 = unat b" and "unat z \<le> unat t + 1" and "unat t \<le> unat z + 1"
  shows "reconcile z b = t"
proof -
  note t = unat_u32_less [of t]
  from assms(2,3) consider "unat t = unat z" | "unat z = Suc (unat t)" | "unat t = Suc (unat z)"
    by linarith
  then have "unat (reconcile z b) = unat t"
  proof cases
    case 1
    with assms(1) show ?thesis by (simp add: unat_reconcile)
  next
    case 2
    with assms(1) mod_256_Suc_neq(1) [of "unat t"] show ?thesis by (simp add: unat_reconcile)
  next
    case 3
    with assms(1) t mod_256_Suc_neq [of "unat z"] mod_256_Suc_neq(2) [of "unat z - 1"]
    show ?thesis by (cases "unat z") (simp_all add: unat_reconcile)
  qed
  then show ?thesis by (simp add: word_unat_eq_iff)
qed

theorem reconcile_recovers_witness:
  "reconcile 0x1003 0x03 = 0x1003 \<and> reconcile 0x1003 0x04 = 0x1004 \<and> reconcile 0x1003 0x02 = 0x1002"
  using reconcile_recovers [of "0x1003" "0x03" "0x1003"] reconcile_recovers [of "0x1004" "0x04" "0x1003"]
    reconcile_recovers [of "0x1002" "0x02" "0x1003"]
  by simp

end
