(* ===== verification/Frame_Decoding.thy ===== *)
theory Frame_Decoding
  imports Decoder
begin

text \<open>
  What one iteration of the loop of \<^verbatim>\<open>parse\<close> does to a buffer that holds
  a frame of the wire format: the round trip through \<open>encode\<close> and
  \<open>parse_frame\<close> for data, time-stamp and version frames, and its
  converse (what is accepted was encoded); the returns on a length
  mismatch, a checksum mismatch, an unknown data type and too few bytes;
  and what happens to a frame whose payload is still in flight.
  \<open>sqi_frame\<close>, \<open>time_frame\<close>, \<open>version_frame\<close> and \<open>waveform_frame\<close>
  are the sample frames of the examples (\<open>time_frame\<close> is the frame
  in the comment of the payload loop of \<^verbatim>\<open>parse\<close>, completed by its last
  byte), \<open>debug_512\<close> is the buffer of \<^verbatim>\<open>main\<close> in a build with overflow
  checks.
\<close>

definition sqi_frame :: frame where
  "sqi_frame = \<lparr>time_low = 0x1F, subsec = 6, seq = 0x85, ident = 0x84, payload = [9, 0, 0, 0]\<rparr>"

definition time_frame :: frame where
  "time_frame =
     \<lparr>time_low = 0x1F, subsec = 6, seq = 0x84, ident = 0x8A, payload = [0x1F, 0x2B, 0xB3, 0x63]\<rparr>"

definition version_frame :: frame where
  "version_frame = \<lparr>time_low = 0x20, subsec = 8, seq = 0x86, ident = 0x03, payload = [3, 0, 0, 0]\<rparr>"

definition waveform_frame :: frame where
  "waveform_frame =
     \<lparr>time_low = 0x21, subsec = 2, seq = 0x87, ident = 0x80, payload = [0x10, 0x10, 0x10, 0x0F, 0x20, 0x0E]\<rparr>"

definition debug_512 :: config where
  "debug_512 = \<lparr>LEN = 512, overflow_checks = True\<rparr>"

lemma encode_sqi_frame:
  "encode sqi_frame = [0x41, 0x34, 0x8D, 0x05, 0x00, 0xFA, 0xFF, 0x1F, 0x06, 0x00, 0x85, 0x84, 9, 0, 0, 0]"
  by (simp add: encode_def frame_header_def sqi_frame_def frame_checksum_def frame_length_def
      u16_to_le_bytes_def)

lemma encode_time_frame:
  "encode time_frame =
     [0x41, 0x34, 0xEA, 0x05, 0x00, 0xFA, 0xFF, 0x1F, 0x06, 0x00, 0x84, 0x8A, 0x1F, 0x2B, 0xB3, 0x63]"
  by (simp add: encode_def frame_header_def time_frame_def frame_checksum_def frame_length_def
      u16_to_le_bytes_def)

lemma sample_frames_well_formed [simp]: "well_formed sqi_frame" "well_formed time_frame"
  by (simp_all add: well_formed_def sqi_frame_def time_frame_def)

lemma sample_frames_fields [simp]:
  "payload sqi_frame = [9, 0, 0, 0]" "ident sqi_frame = 0x84" "seq sqi_frame = 0x85"
  "subsec sqi_frame = 6" "time_low sqi_frame = 0x1F"
  "payload time_frame = [0x1F, 0x2B, 0xB3, 0x63]" "ident time_frame = 0x8A" "seq time_frame = 0x84"
  "subsec time_frame = 6" "time_low time_frame = 0x1F"
  by (simp_all add: sqi_frame_def time_frame_def)

lemma encode_version_frame:
  "encode version_frame = [0x41, 0x34, 0x06, 0x05, 0x00, 0xFA, 0xFF, 0x20, 0x08, 0x00, 0x86, 0x03, 3, 0, 0, 0]"
  by (simp add: encode_def frame_header_def version_frame_def frame_checksum_def frame_length_def
      u16_to_le_bytes_def)

lemma version_frame_fields [simp]:
  "well_formed version_frame" "payload version_frame = [3, 0, 0, 0]" "ident version_frame = 0x03"
  "seq version_frame = 0x86" "subsec version_frame = 8" "time_low version_frame = 0x20"
  by (simp_all add: version_frame_def well_formed_def)

lemma seq_safe_simps [simp]:
  "seq_safe checks None q" "seq_safe False prev q" "seq_safe checks (Some p) (p + 1)"
  by (simp_all add: seq_safe_def split: option.split)

lemma parse_frame_sqi_example:
  "parse_frame debug_512 (init_state None (encode sqi_frame @ [7])) =
     Inr (Continue \<lparr>ring = [7], prev_seqnum = Some 0x85, tt_ss = 6, datatype_v = Sqi,
       datavec = [9, 0, 0, 0], zeo_version = 0, zeo_time_full = 0, while_counter = 1\<rparr>)"
  using decode_encoded [of sqi_frame "[7]" debug_512 "init_state None (encode sqi_frame @ [7])" "[]"]
  by (simp add: init_state_def finish_frame_eq update_clock_def DataType_from_def)

subsection \<open>Round trip\<close>

text \<open>
  C1. A data frame is decoded to what was encoded. When the buffer holds
  bytes without a marker, then the encoding of a well-formed frame whose
  identifier is a known data type other than the time stamp and the
  version, then at least as many bytes that 14 follow the marker, and the
  sequence tracker does not panic, the loop body ends normally: the buffer
  is left with exactly the bytes after the frame, \<open>prev_seqnum\<close> is the
  frame's sequence number, and the locals hold its sub-second counter, its
  data type and its payload.
\<close>

theorem parse_frame_decodes:
  assumes "well_formed f" and "4 \<le> length (payload f) + length rest"
    and "seq_safe (overflow_checks cfg) (prev_seqnum s) (seq f)"
    and "find_marker pre = None" and "ring s = pre @ encode f @ rest"
    and "\<not> is_invalid (DataType_from (ident f))"
    and "ident f \<noteq> 0x8A" and "ident f \<noteq> 0x03"
  shows "parse_frame cfg s =
     Inr (Continue (s\<lparr>ring := rest, prev_seqnum := Some (seq f), tt_ss := subsec f,
       datatype_v := DataType_from (ident f), datavec := payload f,
       while_counter := while_counter s + 1\<rparr>))"
proof -
  from assms(1) have "length (payload f) \<le> 65535"
    by (simp add: well_formed_def)
  with assms(6-8) show ?thesis
    by (simp add: decode_encoded [OF assms(1-5)] finish_frame_eq update_clock_def)
qed

theorem parse_frame_decodes_witness:
  "well_formed sqi_frame \<and> find_marker [0, 0x34, 0x41] = None
   \<and> parse_frame debug_512 (init_state (Some 0x84) ([0, 0x34, 0x41] @ encode sqi_frame @ [0x41])) =
     Inr (Continue \<lparr>ring = [0x41], prev_seqnum = Some 0x85, tt_ss = 6, datatype_v = Sqi,
       datavec = [9, 0, 0, 0], zeo_version = 0, zeo_time_full = 0, while_counter = 1\<rparr>)"
  using parse_frame_decodes [of sqi_frame "[0x41]" debug_512
      "init_state (Some 0x84) ([0, 0x34, 0x41] @ encode sqi_frame @ [0x41])" "[0, 0x34, 0x41]"]
  by (simp add: init_state_def debug_512_def DataType_from_def marker_def seq_safe_def)

text \<open>
  C2. What the loop body accepts was encoded. When the loop body ends
  normally and leaves bytes in the buffer, the bytes it consumed are bytes
  without a marker followed by the encoding of a frame with a known data
  type; \<open>prev_seqnum\<close>, the sub-second counter and the data type are those
  of that frame, and the payload is the frame's, without its first four
  bytes for a time-stamp or version frame. (When the buffer is emptied the
  payload may have been cut short and accepted by a chance checksum.)
\<close>

theorem parse_frame_accepts_encodings:
  assumes "parse_frame cfg s = Inr (Continue s')" and "ring s' \<noteq> []"
  shows "\<exists>pre f. find_marker pre = None \<and> ring s = pre @ encode f @ ring s'
     \<and> length (payload f) < 65536
     \<and> prev_seqnum s' = Some (seq f) \<and> tt_ss s' = subsec f
     \<and> datatype_v s' = DataType_from (ident f) \<and> \<not> is_invalid (DataType_from (ident f))
     \<and> datavec s' = (if ident f = 0x8A \<or> ident f = 0x03 then drop 4 (payload f) else payload f)"
  using assms(1)
proof (cases rule: parse_frame_Inr_cases)
  case (frame c l0 l1 i0 i1 t s0 s1 q d r lost n)
  let ?dl = "u16_from_le_bytes l0 l1"
  define f where "f = \<lparr>time_low = t, subsec = u16_from_le_bytes s0 s1, seq = q, ident = d,
    payload = take (unat n) r\<rparr>"
  let ?st = "s\<lparr>ring := drop (unat n) r, prev_seqnum := Some q, tt_ss := u16_from_le_bytes s0 s1,
    datatype_v := DataType_from d, datavec := take (unat n) r\<rparr>"
  from frame(1) obtain pre where
    pre: "ring s = pre @ 0x41 # 0x34 # c # l0 # l1 # i0 # i1 # t # s0 # s1 # q # d # r"
    and nomark: "find_marker pre = None"
    by (rule message_start_decompose)
  from frame(5) obtain s1' where ck: "frame_checksum d (take (unat n) r) = c"
    and valid: "\<not> is_invalid (DataType_from d)" and uc: "update_clock t ?st = Inr s1'"
    and s': "s' = s1'\<lparr>while_counter := while_counter s1' + 1\<rparr>"
    by (auto simp: finish_frame_eq and_then_eq_Inr_iff split: if_splits)
  note u = update_clock_Inr [OF uc]
  from u(1) s' assms(2) have long: "unat n < length r" by (cases "unat n < length r") simp_all
  from frame(4) have n: "n = ?dl - 1" by (simp add: sub_op_1 split: if_splits)
  have fl: "frame_length f = ?dl"
    using long by (simp add: frame_length_def f_def n min_def)
  have inv: "NOT (frame_length f) = u16_from_le_bytes i0 i1"
    by (simp add: fl frame(2))
  have rest: "payload f @ ring s' = r"
    using u(1) s' by (simp add: f_def)
  have "frame_header f @ payload f @ ring s' =
     0x41 # 0x34 # frame_checksum (ident f) (payload f) # l0 # l1 # i0 # i1
     # time_low f # s0 # s1 # seq f # ident f # payload f @ ring s'"
    by (rule frame_header_of_fields [OF fl inv]) (simp add: f_def)
  with rest ck have "pre @ encode f @ ring s' = ring s"
    by (simp add: encode_def pre f_def)
  moreover have "length (payload f) \<le> 65535"
    by (simp add: f_def)
  then have "length (payload f) < 65536" by simp
  ultimately show ?thesis
    using nomark valid u(2-5) s' by (intro exI [of _ pre] exI [of _ f]) (auto simp: f_def)
qed simp_all

theorem parse_frame_accepts_encodings_witness:
  "\<exists>pre f. find_marker pre = None
     \<and> ring (init_state None (encode sqi_frame @ [7])) = pre @ encode f @ [7]
     \<and> length (payload f) < 65536 \<and> Some 0x85 = Some (seq f) \<and> 6 = subsec f
     \<and> Sqi = DataType_from (ident f) \<and> \<not> is_invalid (DataType_from (ident f))
     \<and> [9, 0, 0, 0] = (if ident f = 0x8A \<or> ident f = 0x03 then drop 4 (payload f) else payload f)"
  using parse_frame_accepts_encodings [OF parse_frame_sqi_example] by simp

text \<open>
  C6. A time-stamp frame is decoded and its clock value extracted. For a
  well-formed frame with identifier \<open>0x8A\<close> whose payload starts with the
  four bytes of \<open>t\<close> (least significant first), the loop body ends
  normally with the four bytes removed from the payload and
  \<open>zeo_time_full\<close> set to \<open>t\<close> reconciled with the frame's time low
  byte.
\<close>

theorem parse_frame_time_stamp:
  assumes "well_formed f" and "payload f = u32_to_le_bytes t @ extra" and "ident f = 0x8A"
    and "seq_safe (overflow_checks cfg) (prev_seqnum s) (seq f)"
    and "find_marker pre = None" and "ring s = pre @ encode f @ rest"
  shows "parse_frame cfg s =
     Inr (Continue (s\<lparr>ring := rest, prev_seqnum := Some (seq f), tt_ss := subsec f,
       datatype_v := ZeoTimestamp, datavec := extra,
       zeo_time_full := reconcile t (time_low f),
       while_counter := while_counter s + 1\<rparr>))"
proof -
  from assms(1) have le: "length (payload f) \<le> 65535"
    by (simp add: well_formed_def)
  from assms(2) have "4 \<le> length (payload f) + length rest"
    by simp
  from decode_encoded [OF assms(1) this assms(4-6)] le assms(2,3) show ?thesis
    by (simp add: finish_frame_eq update_clock_time_stamp DataType_from_def)
qed

theorem parse_frame_time_stamp_witness:
  "payload time_frame = u32_to_le_bytes 0x63B32B1F @ []
   \<and> parse_frame debug_512 (init_state None (encode time_frame)) =
     Inr (Continue \<lparr>ring = [], prev_seqnum = Some 0x84, tt_ss = 6, datatype_v = ZeoTimestamp,
       datavec = [], zeo_version = 0, zeo_time_full = 0x63B32B1F, while_counter = 1\<rparr>)"
  using parse_frame_time_stamp [of time_frame "0x63B32B1F" "[]" debug_512
      "init_state None (encode time_frame)" "[]" "[]"]
  by (simp add: init_state_def debug_512_def u32_to_le_bytes_def reconcile_def)

text \<open>
  C27. A version frame is decoded and the protocol version extracted: for a
  well-formed frame with identifier \<open>0x03\<close> whose payload starts with the
  four bytes of \<open>v\<close>, the loop body ends normally with \<open>zeo_version = v\<close>
  and the four bytes removed from the payload.
\<close>

theorem parse_frame_version:
  assumes "well_formed f" and "payload f = u32_to_le_bytes v @ extra" and "ident f = 0x03"
    and "seq_safe (overflow_checks cfg) (prev_seqnum s) (seq f)"
    and "find_marker pre = None" and "ring s = pre @ encode f @ rest"
  shows "parse_frame cfg s =
     Inr (Continue (s\<lparr>ring := rest, prev_seqnum := Some (seq f), tt_ss := subsec f,
       datatype_v := Version, datavec := extra, zeo_version := v,
       while_counter := while_counter s + 1\<rparr>))"
proof -
  from assms(1) have le: "length (payload f) \<le> 65535"
    by (simp add: well_formed_def)
  from assms(2) have "4 \<le> length (payload f) + length rest"
    by simp
  from decode_encoded [OF assms(1) this assms(4-6)] le assms(2,3) show ?thesis
    by (simp add: finish_frame_eq update_clock_version DataType_from_def)
qed

theorem parse_frame_version_witness:
  "payload version_frame = u32_to_le_bytes 3 @ []
   \<and> parse_frame debug_512 (init_state (Some 0x85) (encode version_frame)) =
     Inr (Continue \<lparr>ring = [], prev_seqnum = Some 0x86, tt_ss = 8, datatype_v = Version,
       datavec = [], zeo_version = 3, zeo_time_full = 0, while_counter = 1\<rparr>)"
  using parse_frame_version [of version_frame 3 "[]" debug_512
      "init_state (Some 0x85) (encode version_frame)" "[]" "[]"]
  by (simp add: init_state_def debug_512_def u32_to_le_bytes_def seq_safe_def)

subsection \<open>Rejected frames\<close>

text \<open>
  C3. A frame whose length field is not the bitwise inverse of its
  redundancy field is rejected with \<open>Invalid message length.\<close>, and the
  buffer afterwards holds exactly the bytes after the two length fields: the
  marker, the checksum byte and the four length bytes are consumed and
  nothing else; \<open>prev_seqnum\<close> and the locals are unchanged.
\<close>

theorem parse_frame_length_mismatch:
  assumes "find_marker pre = None"
    and "ring s = pre @ [0x41, 0x34, c] @ u16_to_le_bytes dl @ u16_to_le_bytes inv_dl @ rest"
    and "dl \<noteq> NOT inv_dl" and "9 \<le> length rest"
  shows "parse_frame cfg s = Inr (Return (Inl ''Invalid message length.'') (s\<lparr>ring := rest\<rparr>))"
proof -
  from assms(2) have "ring s = pre @ 0x41 # 0x34 # c # u16_to_le_bytes dl @ u16_to_le_bytes inv_dl @ rest"
    by simp
  from parse_frame_at_marker [OF this assms(1)] assms(3,4) show ?thesis
    by (simp add: u16_to_le_bytes_def decode_frame_Cons)
qed

theorem parse_frame_length_mismatch_witness:
  "(5 :: u16) \<noteq> NOT 0xFFFB
   \<and> parse_frame debug_512 (init_state None
       ([0x41, 0x34, 0xEA] @ u16_to_le_bytes 5 @ u16_to_le_bytes 0xFFFB @ [1, 2, 3, 4, 5, 6, 7, 8, 9])) =
     Inr (Return (Inl ''Invalid message length.'') (init_state None [1, 2, 3, 4, 5, 6, 7, 8, 9]))"
  using parse_frame_length_mismatch [of "[]" "init_state None
       ([0x41, 0x34, 0xEA] @ u16_to_le_bytes 5 @ u16_to_le_bytes 0xFFFB @ [1, 2, 3, 4, 5, 6, 7, 8, 9])"
       "0xEA" 5 "0xFFFB" "[1, 2, 3, 4, 5, 6, 7, 8, 9]" debug_512]
  by (simp add: init_state_def)

text \<open>
  C9. A frame whose checksum byte differs from the sum of its identifier
  and payload (modulo 256) is rejected with \<open>Invalid checksum.\<close> after the
  whole frame has been consumed: the buffer holds exactly the bytes after
  the frame, and \<open>prev_seqnum\<close> has already been set to the rejected
  frame's sequence number.
\<close>

theorem parse_frame_checksum_mismatch:
  assumes "well_formed f" and "4 \<le> length (payload f) + length rest"
    and "seq_safe (overflow_checks cfg) (prev_seqnum s) (seq f)"
    and "find_marker pre = None"
    and "ring s = pre @ (encode f)[2 := c] @ rest" and "c \<noteq> frame_checksum (ident f) (payload f)"
  shows "parse_frame cfg s =
     Inr (Return (Inl ''Invalid checksum.'')
       (s\<lparr>ring := rest, prev_seqnum := Some (seq f), tt_ss := subsec f,
          datatype_v := DataType_from (ident f), datavec := payload f\<rparr>))"
proof -
  have enc: "(encode f)[2 := c] @ rest =
     0x41 # 0x34 # c
     # ucast (frame_length f) # ucast (drop_bit 8 (frame_length f))
     # ucast (NOT (frame_length f)) # ucast (drop_bit 8 (NOT (frame_length f)))
     # time_low f # ucast (subsec f) # ucast (drop_bit 8 (subsec f))
     # seq f # ident f # (payload f @ rest)"
    using frame_header_Cons [of f "payload f"] by (simp add: encode_def numeral_2_eq_2)
  from assms(3) obtain lost where
    t: "track_seqnum (overflow_checks cfg) (prev_seqnum s) (seq f) = Inr (lost, Some (seq f))"
    using track_seqnum_safe by blast
  note [simp] = frame_length_ge_1 [OF assms(1)] unat_frame_length_minus_1 [OF assms(1)]
  from assms(1) have "length (payload f) \<le> 65535"
    by (simp add: well_formed_def)
  with assms(2,6) show ?thesis
    by (simp add: parse_frame_at_marker [OF assms(5) [unfolded enc] assms(4)]
        decode_frame_Cons decode_body_Cons t finish_frame_eq)
qed

theorem parse_frame_checksum_mismatch_witness:
  "(0x8C :: u8) \<noteq> frame_checksum (ident sqi_frame) (payload sqi_frame)
   \<and> parse_frame debug_512 (init_state None ((encode sqi_frame)[2 := 0x8C] @ [7])) =
     Inr (Return (Inl ''Invalid checksum.'')
       \<lparr>ring = [7], prev_seqnum = Some 0x85, tt_ss = 6, datatype_v = Sqi,
        datavec = [9, 0, 0, 0], zeo_version = 0, zeo_time_full = 0, while_counter = 0\<rparr>)"
  using parse_frame_checksum_mismatch [of sqi_frame "[7]" debug_512
      "init_state None ((encode sqi_frame)[2 := 0x8C] @ [7])" "[]" "0x8C"]
  by (simp add: init_state_def debug_512_def frame_checksum_def DataType_from_def)

text \<open>
  C26. A frame with a correct checksum whose identifier is none of the ten
  known data types is rejected with the message \<open>Bad datatype: {{b:02X}}\<close>
  after it has been consumed whole; the payload is not surfaced, the
  \<^verbatim>\<open>Result\<close> carries only the message.
\<close>

theorem parse_frame_bad_datatype:
  assumes "well_formed f" and "4 \<le> length (payload f) + length rest"
    and "seq_safe (overflow_checks cfg) (prev_seqnum s) (seq f)"
    and "find_marker pre = None" and "ring s = pre @ encode f @ rest"
    and "ident f \<notin> set data_codes"
  shows "parse_frame cfg s =
     Inr (Return (Inl ''Bad datatype: {{b:02X}}'')
       (s\<lparr>ring := rest, prev_seqnum := Some (seq f), tt_ss := subsec f,
          datatype_v := DataType.Invalid (ident f), datavec := payload f\<rparr>))"
proof -
  from assms(1) have "length (payload f) \<le> 65535"
    by (simp add: well_formed_def)
  moreover from assms(6) have "DataType_from (ident f) = DataType.Invalid (ident f)"
    by (simp add: DataType_from_Invalid_iff)
  ultimately show ?thesis
    by (simp add: decode_encoded [OF assms(1-5)] finish_frame_eq)
qed

theorem parse_frame_bad_datatype_witness:
  "ident (sqi_frame\<lparr>ident := 0x85\<rparr>) \<notin> set data_codes
   \<and> parse_frame debug_512 (init_state None (encode (sqi_frame\<lparr>ident := 0x85\<rparr>))) =
     Inr (Return (Inl ''Bad datatype: {{b:02X}}'')
       \<lparr>ring = [], prev_seqnum = Some 0x85, tt_ss = 6, datatype_v = DataType.Invalid 0x85,
        datavec = [9, 0, 0, 0], zeo_version = 0, zeo_time_full = 0, while_counter = 0\<rparr>)"
  using parse_frame_bad_datatype [of "sqi_frame\<lparr>ident := 0x85\<rparr>" "[]" debug_512
      "init_state None (encode (sqi_frame\<lparr>ident := 0x85\<rparr>))" "[]"]
  by (simp add: init_state_def debug_512_def data_codes_def well_formed_def)

subsection \<open>Too few bytes after the marker\<close>

text \<open>
  C15. When fewer than 14 bytes follow the first marker, the loop body
  returns \<open>Ok(None)\<close> and leaves the buffer as the marker followed by those
  bytes: the bytes before the marker are discarded, nothing after it is
  lost, and \<open>prev_seqnum\<close> and the locals are unchanged. (The example is
  the buffer in the comment of the payload loop of \<^verbatim>\<open>parse\<close>.)
\<close>

theorem parse_frame_awaits:
  assumes "find_marker pre = None" and "ring s = pre @ 0x41 # 0x34 # r"
    and "length r < 14" and "length r + 2 \<le> LEN cfg"
  shows "parse_frame cfg s = Inr (Return (Inr None) (s\<lparr>ring := 0x41 # 0x34 # r\<rparr>))"
  using assms by (simp add: parse_frame_at_marker)

theorem parse_frame_awaits_witness:
  "find_marker [0, 0] = None
   \<and> parse_frame debug_512 (init_state None
       ([0, 0] @ 0x41 # 0x34 # [0xEA, 0x05, 0x00, 0xFA, 0xFF, 0x1F, 0x06, 0x00, 0x84, 0x8A, 0x1F, 0x2B, 0xB3])) =
     Inr (Return (Inr None) (init_state None
       [0x41, 0x34, 0xEA, 0x05, 0x00, 0xFA, 0xFF, 0x1F, 0x06, 0x00, 0x84, 0x8A, 0x1F, 0x2B, 0xB3]))"
  using parse_frame_awaits [of "[0, 0]" "init_state None
       ([0, 0] @ 0x41 # 0x34 # [0xEA, 0x05, 0x00, 0xFA, 0xFF, 0x1F, 0x06, 0x00, 0x84, 0x8A, 0x1F, 0x2B, 0xB3])"
       "[0xEA, 0x05, 0x00, 0xFA, 0xFF, 0x1F, 0x06, 0x00, 0x84, 0x8A, 0x1F, 0x2B, 0xB3]" debug_512]
  by (simp add: init_state_def debug_512_def marker_def)

subsection \<open>A payload still in flight\<close>

text \<open>
  C16. A frame whose payload has not arrived completely is not kept for
  later: when at least four but not all payload bytes are in the buffer
  and they do not happen to sum to the full payload's sum, the loop body
  reads the bytes that are there, rejects the frame with
  \<open>Invalid checksum.\<close> and leaves the buffer empty, so the rest of the
  payload can no longer be joined to its frame.
\<close>

theorem parse_frame_truncated:
  assumes "well_formed f" and "4 \<le> n" and "n < length (payload f)"
    and "seq_safe (overflow_checks cfg) (prev_seqnum s) (seq f)"
    and "find_marker pre = None" and "ring s = pre @ take (12 + n) (encode f)"
    and "sum_list (take n (payload f)) \<noteq> sum_list (payload f)"
  shows "parse_frame cfg s =
     Inr (Return (Inl ''Invalid checksum.'')
       (s\<lparr>ring := [], prev_seqnum := Some (seq f), tt_ss := subsec f,
          datatype_v := DataType_from (ident f), datavec := take n (payload f)\<rparr>))"
proof -
  from assms(2,3) have len: "4 \<le> length (take n (payload f))"
    by simp
  from assms(6) have r: "ring s = pre @ frame_header f @ take n (payload f)"
    by (simp add: take_encode)
  from assms(1) have "length (take n (payload f)) \<le> 65535"
    by (simp add: well_formed_def)
  with assms(3,7) show ?thesis
    by (simp add: decode_header [OF assms(1) len assms(4,5) r] finish_frame_eq frame_checksum_def
        min_def)
qed

theorem parse_frame_truncated_witness:
  "well_formed waveform_frame \<and> 4 < length (payload waveform_frame)
   \<and> parse_frame debug_512 (init_state None (take (12 + 4) (encode waveform_frame))) =
     Inr (Return (Inl ''Invalid checksum.'')
       \<lparr>ring = [], prev_seqnum = Some 0x87, tt_ss = 2, datatype_v = Waveform,
        datavec = [0x10, 0x10, 0x10, 0x0F], zeo_version = 0, zeo_time_full = 0,
        while_counter = 0\<rparr>)"
  using parse_frame_truncated [of waveform_frame 4 debug_512
      "init_state None (take (12 + 4) (encode waveform_frame))" "[]"]
  by (simp add: init_state_def debug_512_def waveform_frame_def well_formed_def DataType_from_def)

end
