(* ===== verification/Frame_Safety.thy ===== *)
theory Frame_Safety
  imports Frame_Decoding
begin

text \<open>
  Safety of one iteration of the loop of \<^verbatim>\<open>parse\<close>: exactly when it
  panics and with which panic, that the checksum sum never overflows, and
  what it does to the buffer whatever the bytes are (the buffer afterwards
  is a suffix of the buffer before and within its capacity).
\<close>

text \<open>
  C7. The panics of the loop body after a marker that at least 14 bytes
  follow. It panics only when the two length fields agree (a mismatch is
  an error return before any arithmetic). With overflow checks it panics
  with a subtraction overflow when the sequence number is below its
  predecessor plus one or the length field is zero. Otherwise it panics
  only on an unwrap, exactly when the checksum is right, the frame is a
  time-stamp or version frame, and fewer than three payload bytes were
  read. No other panic is possible: the header unwraps are covered by the
  14 bytes, and the checksum sum does not overflow.
\<close>

theorem parse_frame_panics_iff:
  assumes "message_start (ring s) = Inr (c # l0 # l1 # i0 # i1 # t # s0 # s1 # q # d # r)"
    and "4 \<le> length r" and "dl = u16_from_le_bytes l0 l1"
  shows "parse_frame cfg s = Inl p \<longleftrightarrow>
     dl = NOT (u16_from_le_bytes i0 i1) \<and>
     (if overflow_checks cfg \<and> ((\<exists>pq. prev_seqnum s = Some pq \<and> q < pq + 1) \<or> dl = 0)
      then p = SubtractOverflow
      else p = UnwrapOnNone \<and> frame_checksum d (take (unat (dl - 1)) r) = c
        \<and> (d = 0x8A \<or> d = 0x03) \<and> length (take (unat (dl - 1)) r) < 3)"
proof (cases "dl = NOT (u16_from_le_bytes i0 i1)")
  case True
  with parse_frame_Inl_iff [OF assms True, of cfg p] show ?thesis by simp
next
  case False
  with assms(3) show ?thesis by (simp add: parse_frame_Cons [OF assms(1,2)])
qed

theorem parse_frame_panics_iff_witness:
  "parse_frame debug_512 (init_state (Some 0x84) 
      [0x41, 0x34, 0x8D, 0x05, 0x00, 0xFA, 0xFF, 0x1F, 0x06, 0x00, 0x84, 0x84, 9, 0, 0, 0]) = Inl SubtractOverflow
   \<and> parse_frame (debug_512\<lparr>overflow_checks := False\<rparr>) (init_state (Some 0x84) 
      [0x41, 0x34, 0x8D, 0x05, 0x00, 0xFA, 0xFF, 0x1F, 0x06, 0x00, 0x84, 0x84, 9, 0, 0, 0]) \<noteq>
     Inl SubtractOverflow"
  using
    parse_frame_panics_iff [of "init_state (Some 0x84) 
      [0x41, 0x34, 0x8D, 0x05, 0x00, 0xFA, 0xFF, 0x1F, 0x06, 0x00, 0x84, 0x84, 9, 0, 0, 0]"
      "0x8D" "0x05" "0x00" "0xFA" "0xFF" "0x1F" "0x06" "0x00" "0x84" "0x84" "[9, 0, 0, 0]" 5
      debug_512 SubtractOverflow]
    parse_frame_panics_iff [of "init_state (Some 0x84) 
      [0x41, 0x34, 0x8D, 0x05, 0x00, 0xFA, 0xFF, 0x1F, 0x06, 0x00, 0x84, 0x84, 9, 0, 0, 0]"
      "0x8D" "0x05" "0x00" "0xFA" "0xFF" "0x1F" "0x06" "0x00" "0x84" "0x84" "[9, 0, 0, 0]" 5
      "debug_512\<lparr>overflow_checks := False\<rparr>" SubtractOverflow]
  by (simp add: init_state_def debug_512_def u16_from_le_bytes_def)

text \<open>
  C28. The loop body never panics with an addition overflow, whatever the
  buffer holds and whichever build: the checksum is summed in \<open>u32\<close> over
  at most 65535 payload bytes, which stays below \<open>2^32\<close>. And a build
  without overflow checks never panics with a subtraction overflow: the
  only panic left to it is an unwrap.
\<close>

theorem parse_frame_never_add_overflow:
  "parse_frame cfg s \<noteq> Inl AddOverflow
   \<and> parse_frame (cfg\<lparr>overflow_checks := False\<rparr>) s \<noteq> Inl SubtractOverflow"
  using parse_frame_Inl_cases [of cfg s AddOverflow]
    parse_frame_Inl_cases [of "cfg\<lparr>overflow_checks := False\<rparr>" s SubtractOverflow]
  by auto

text \<open>
  C29. Whatever the buffer holds, when the loop body does not panic the
  buffer it leaves is a suffix of the buffer it found, and within the
  capacity if the buffer was: bytes are only consumed from the front, none
  is invented or reordered, and restoring the marker never evicts a byte.
\<close>

theorem parse_frame_ring_suffix:
  assumes "within_capacity (LEN cfg) (ring s)" and "parse_frame cfg s = Inr fl"
  shows "within_capacity (LEN cfg) (ring (state_of fl))
    \<and> (\<exists>k. ring (state_of fl) = drop k (ring s))"
  using assms by (simp add: parse_frame_ring_drop parse_frame_within_capacity)

theorem parse_frame_ring_suffix_witness:
  "within_capacity (LEN debug_512) (ring (init_state None (encode sqi_frame @ [7])))
   \<and> within_capacity (LEN debug_512) [7]
   \<and> (\<exists>k. [7 :: u8] = drop k (encode sqi_frame @ [7]))"
  using parse_frame_ring_suffix [of debug_512 "init_state None (encode sqi_frame @ [7])",
      OF _ parse_frame_sqi_example]
  by (simp add: init_state_def debug_512_def within_capacity_def)

end
