(* ===== verification/Parser.thy ===== *)
theory Parser
  imports Frame_Decoding
begin

text \<open>
  The function \<^verbatim>\<open>parse\<close> of \<^verbatim>\<open>src/main.rs\<close> as a whole: \<open>parse_loop\<close> is
  its \<^verbatim>\<open>while ring.len() > 15\<close> loop around the body \<open>parse_frame\<close>, and
  \<open>parse\<close> initialises the locals, runs the loop and returns the
  \<^verbatim>\<open>Result\<close> together with the final values of the two \<^verbatim>\<open>&mut\<close>
  parameters. A panic ends everything; an early \<^verbatim>\<open>return\<close> of the body
  ends the loop with its value; when the loop ends by its condition, the
  result is \<open>Ok(Some(...))\<close> of the locals (\<open>packet_of\<close>). The loop
  terminates because every iteration that continues takes at least twelve
  bytes out of the buffer. \<open>parse_loop_Inr_induct\<close> is the induction rule
  for the properties of a call that returns; the lemmas give the calls on
  too few bytes, on bytes without a marker and on encoded frames, and what
  a call leaves in the buffer.
\<close>

definition packet_of :: "pstate \<Rightarrow> packet" where
  "packet_of s = (zeo_time_full s, tt_ss s, zeo_version s, datatype_v s, datavec s)"

function parse_loop :: "config \<Rightarrow> pstate \<Rightarrow> panic + ((string + packet option) \<times> pstate)" where
  "parse_loop cfg s =
     (if 15 < length (ring s) then
        (case parse_frame cfg s of
           Inl p \<Rightarrow> Inl p
         | Inr (Return res s') \<Rightarrow> Inr (res, s')
         | Inr (Continue s') \<Rightarrow> parse_loop cfg s')
      else Inr (Inr (Some (packet_of s)), s))"
  by pat_completeness auto
termination
  by (relation "measure (\<lambda>(cfg, s). length (ring s))")
    (auto dest: parse_frame_Continue_shrinks)

declare parse_loop.simps [simp del]

definition parse ::
  "config \<Rightarrow> u8 option \<Rightarrow> u8 list \<Rightarrow> panic + ((string + packet option) \<times> u8 option \<times> u8 list)" where
  "parse cfg prev r =
     and_then (parse_loop cfg (init_state prev r)) (\<lambda>(res, s).
     Inr (res, prev_seqnum s, ring s))"

subsection \<open>Unfolding the loop\<close>

lemma parse_loop_starved [zeo_simps]:
  "length (ring s) \<le> 15 \<Longrightarrow> parse_loop cfg s = Inr (Inr (Some (packet_of s)), s)"
  by (simp add: parse_loop.simps [of cfg s])

lemma parse_loop_Continue [zeo_simps]:
  "15 < length (ring s) \<Longrightarrow> parse_frame cfg s = Inr (Continue s')
   \<Longrightarrow> parse_loop cfg s = parse_loop cfg s'"
  by (simp add: parse_loop.simps [of cfg s])

lemma parse_loop_Return [zeo_simps]:
  "15 < length (ring s) \<Longrightarrow> parse_frame cfg s = Inr (Return res s')
   \<Longrightarrow> parse_loop cfg s = Inr (res, s')"
  by (simp add: parse_loop.simps [of cfg s])

lemma parse_loop_panic [zeo_simps]:
  "15 < length (ring s) \<Longrightarrow> parse_frame cfg s = Inl p \<Longrightarrow> parse_loop cfg s = Inl p"
  by (simp add: parse_loop.simps [of cfg s])

lemma packet_of_init [simp]:
  "packet_of (init_state prev r) = (0, 0, 0, DataType.Invalid 255, [])"
  by (simp add: packet_of_def init_state_def)

lemma init_state_simps [simp]:
  "ring (init_state prev r) = r" "prev_seqnum (init_state prev r) = prev"
  "while_counter (init_state prev r) = 0" "zeo_time_full (init_state prev r) = 0"
  "zeo_version (init_state prev r) = 0"
  by (simp_all add: init_state_def)

lemma parse_loop_Inr_induct [consumes 1, case_names stop return continue]:
  assumes "parse_loop cfg s = Inr (res, s')"
    and "\<And>s. length (ring s) \<le> 15 \<Longrightarrow> P s (Inr (Some (packet_of s))) s"
    and "\<And>s res s'. 15 < length (ring s) \<Longrightarrow> parse_frame cfg s = Inr (Return res s') \<Longrightarrow> P s res s'"
    and "\<And>s s1 res s'. 15 < length (ring s) \<Longrightarrow> parse_frame cfg s = Inr (Continue s1) \<Longrightarrow>
           parse_loop cfg s1 = Inr (res, s') \<Longrightarrow> P s1 res s' \<Longrightarrow> P s res s'"
  shows "P s res s'"
  using assms
proof (induction cfg s rule: parse_loop.induct)
  case (1 cfg s)
  note stop = "1.prems"(2) and return = "1.prems"(3) and continue = "1.prems"(4)
  show ?case
  proof (cases "15 < length (ring s)")
    case False
    with "1.prems"(1) stop [of s] show ?thesis by (auto simp: parse_loop_starved)
  next
    case True
    show ?thesis
    proof (cases "parse_frame cfg s")
      case (Inl p)
      with True "1.prems"(1) show ?thesis by (simp add: parse_loop_panic)
    next
      case (Inr fl)
      show ?thesis
      proof (cases fl)
        case (Return r t)
        with True Inr "1.prems"(1) return [of s r t] show ?thesis
          by (auto simp: parse_loop_Return)
      next
        case (Continue s1)
        with True Inr "1.prems"(1) have s1: "parse_loop cfg s1 = Inr (res, s')"
          by (simp add: parse_loop_Continue)
        from "1.IH" [OF True Inr Continue s1 stop return continue] have "P s1 res s'" .
        with continue [of s s1] True Inr Continue s1 show ?thesis by simp
      qed
    qed
  qed
qed

subsection \<open>A call on too few bytes, and on bytes without a marker\<close>

text \<open>
  C22. A call with at most 15 bytes buffered does not enter the loop: it
  returns \<open>Ok(Some(...))\<close> of the initial locals (times and version 0, data
  type \<open>Invalid(255)\<close>, an empty payload) and leaves the buffer and
  \<open>prev_seqnum\<close> as they were. The caller cannot tell this from a decoded
  frame by the variant of the result.
\<close>

theorem parse_starved:
  "length r \<le> 15 \<Longrightarrow>
   parse cfg prev r = Inr (Inr (Some (0, 0, 0, DataType.Invalid 255, [])), prev, r)"
  by (simp add: parse_def parse_loop_starved)

theorem parse_starved_witness:
  "parse debug_512 None [0x41, 0x34, 0xEA, 0x05, 0x00, 0xFA, 0xFF, 0x1F, 0x06, 0x00, 0x84, 0x8A, 0x1F, 0x2B, 0xB3] =
     Inr (Inr (Some (0, 0, 0, DataType.Invalid 255, [])), None,
       [0x41, 0x34, 0xEA, 0x05, 0x00, 0xFA, 0xFF, 0x1F, 0x06, 0x00, 0x84, 0x8A, 0x1F, 0x2B, 0xB3])"
  using parse_starved [of "[0x41, 0x34, 0xEA, 0x05, 0x00, 0xFA, 0xFF, 0x1F, 0x06, 0x00, 0x84, 0x8A, 0x1F, 0x2B, 0xB3]" debug_512 None]
  by simp

text \<open>
  C21. A call with more than 15 bytes buffered none of which starts a marker
  panics: the marker scan pops every byte and then unwraps the \<open>None\<close> of
  the emptied buffer.
\<close>

theorem parse_panics_without_marker:
  "15 < length r \<Longrightarrow> find_marker r = None \<Longrightarrow> parse cfg prev r = Inl UnwrapOnNone"
  by (simp add: parse_def parse_loop_panic parse_frame_no_marker)

theorem parse_panics_without_marker_witness:
  "find_marker [0, 0, 0, 0, 0, 0, 0, 0, 0, 0, 0, 0, 0, 0, 0, 0] = None
   \<and> parse debug_512 None [0, 0, 0, 0, 0, 0, 0, 0, 0, 0, 0, 0, 0, 0, 0, 0] = Inl UnwrapOnNone"
  using parse_panics_without_marker [of "[0, 0, 0, 0, 0, 0, 0, 0, 0, 0, 0, 0, 0, 0, 0, 0]"
      debug_512 None]
  by (simp add: marker_def)

subsection \<open>Calls on encoded frames\<close>

lemma parse_loop_decoded:
  assumes "well_formed f" and "4 \<le> length (payload f) + length rest"
    and "seq_safe (overflow_checks cfg) (prev_seqnum s) (seq f)"
    and "find_marker pre = None" and "ring s = pre @ encode f @ rest"
    and "\<not> is_invalid (DataType_from (ident f))"
    and "ident f \<noteq> 0x8A" and "ident f \<noteq> 0x03"
  shows "parse_loop cfg s = parse_loop cfg
     (s\<lparr>ring := rest, prev_seqnum := Some (seq f), tt_ss := subsec f,
        datatype_v := DataType_from (ident f), datavec := payload f,
        while_counter := while_counter s + 1\<rparr>)"
proof -
  from assms(1) have "length (payload f) \<le> 65535"
    by (simp add: well_formed_def)
  with assms(6-8) have "parse_frame cfg s = Inr (Continue
     (s\<lparr>ring := rest, prev_seqnum := Some (seq f), tt_ss := subsec f,
        datatype_v := DataType_from (ident f), datavec := payload f,
        while_counter := while_counter s + 1\<rparr>))"
    by (simp add: decode_encoded [OF assms(1-5)] finish_frame_eq update_clock_def)
  moreover from assms(2,5) have "15 < length (ring s)"
    by simp
  ultimately show ?thesis by (rule parse_loop_Continue [rotated])
qed

lemma parse_loop_sqi_example:
  "parse_loop debug_512 (init_state (Some 0x84) ([0, 0x34] @ encode sqi_frame @ [0x41])) =
     Inr (Inr (Some (0, 6, 0, Sqi, [9, 0, 0, 0])),
       \<lparr>ring = [0x41], prev_seqnum = Some 0x85, tt_ss = 6, datatype_v = Sqi,
         datavec = [9, 0, 0, 0], zeo_version = 0, zeo_time_full = 0, while_counter = 1\<rparr>)"
  using parse_loop_decoded [of sqi_frame "[0x41]" debug_512
      "init_state (Some 0x84) ([0, 0x34] @ encode sqi_frame @ [0x41])" "[0, 0x34]"]
  by (simp add: debug_512_def DataType_from_def marker_def seq_safe_def parse_loop_starved
      packet_of_def init_state_def)

lemma parse_sqi_example:
  "parse debug_512 (Some 0x84) ([0, 0x34] @ encode sqi_frame @ [0x41]) =
     Inr (Inr (Some (0, 6, 0, Sqi, [9, 0, 0, 0])), Some 0x85, [0x41])"
  using parse_loop_sqi_example by (simp add: parse_def)

text \<open>
  C20. A call on a buffer that holds bytes without a marker, the encoding
  of one well-formed data frame and at most 15 further bytes returns that
  frame: \<open>Ok(Some(...))\<close> of its sub-second counter, its data type and its
  payload, with both times and the version 0; \<open>prev_seqnum\<close> becomes the
  frame's sequence number and the buffer keeps exactly the bytes after the
  frame.
\<close>

theorem parse_single_frame:
  assumes "well_formed f" and "4 \<le> length (payload f) + length rest" and "length rest \<le> 15"
    and "seq_safe (overflow_checks cfg) prev (seq f)"
    and "find_marker pre = None"
    and "\<not> is_invalid (DataType_from (ident f))"
    and "ident f \<noteq> 0x8A" and "ident f \<noteq> 0x03"
  shows "parse cfg prev (pre @ encode f @ rest) =
     Inr (Inr (Some (0, subsec f, 0, DataType_from (ident f), payload f)), Some (seq f), rest)"
  using assms
  by (simp add: parse_def parse_loop_decoded [where pre = pre and f = f and rest = rest]
      parse_loop_starved packet_of_def)

theorem parse_single_frame_witness:
  "parse debug_512 (Some 0x84) ([0, 0x34] @ encode sqi_frame @ [0x41]) =
     Inr (Inr (Some (0, 6, 0, Sqi, [9, 0, 0, 0])), Some 0x85, [0x41])"
  using parse_single_frame [of sqi_frame "[0x41]" debug_512 "Some 0x84" "[0, 0x34]"]
  by (simp add: debug_512_def DataType_from_def marker_def seq_safe_def)

text \<open>
  C8. A call on a buffer that holds two encoded data frames decodes both
  and returns the second only: the first frame's payload is overwritten by
  the next iteration of the loop and never reaches the caller. The payloads
  are arbitrary, so marker bytes inside the first payload do not disturb
  the alignment on the second frame.
\<close>

theorem parse_returns_last_frame:
  assumes "well_formed f" and "well_formed g"
    and "4 \<le> length (payload g)"
    and "seq_safe (overflow_checks cfg) prev (seq f)"
    and "seq_safe (overflow_checks cfg) (Some (seq f)) (seq g)"
    and "\<not> is_invalid (DataType_from (ident f))" and "ident f \<noteq> 0x8A" and "ident f \<noteq> 0x03"
    and "\<not> is_invalid (DataType_from (ident g))" and "ident g \<noteq> 0x8A" and "ident g \<noteq> 0x03"
  shows "parse cfg prev (encode f @ encode g) =
     Inr (Inr (Some (0, subsec g, 0, DataType_from (ident g), payload g)), Some (seq g), [])"
proof -
  have 1: "parse_loop cfg (init_state prev (encode f @ encode g)) = parse_loop cfg
     ((init_state prev (encode f @ encode g))\<lparr>ring := encode g, prev_seqnum := Some (seq f),
        tt_ss := subsec f, datatype_v := DataType_from (ident f), datavec := payload f,
        while_counter := Suc 0\<rparr>)" (is "_ = parse_loop cfg ?s1")
    using parse_loop_decoded [of f "encode g" cfg "init_state prev (encode f @ encode g)" "[]"] assms
    by simp
  have 2: "parse_loop cfg ?s1 = parse_loop cfg
     (?s1\<lparr>ring := [], prev_seqnum := Some (seq g), tt_ss := subsec g,
        datatype_v := DataType_from (ident g), datavec := payload g,
        while_counter := Suc (Suc 0)\<rparr>)"
    using parse_loop_decoded [of g "[]" cfg ?s1 "[]"] assms
    by simp
  show ?thesis
    by (simp add: parse_def 1 2 parse_loop_starved packet_of_def)
qed

theorem parse_returns_last_frame_witness:
  "parse debug_512 None (encode sqi_frame @ encode waveform_frame) =
     Inr (Inr (Some (0, 2, 0, Waveform, [0x10, 0x10, 0x10, 0x0F, 0x20, 0x0E])), Some 0x87, [])"
  using parse_returns_last_frame [of sqi_frame waveform_frame debug_512 None]
  by (simp add: debug_512_def DataType_from_def seq_safe_def waveform_frame_def well_formed_def)

text \<open>
  C25. A call stops at the first frame whose length fields disagree: it
  returns \<open>Err("Invalid message length.")\<close>, \<open>prev_seqnum\<close> is unchanged, and
  everything after the two length fields stays in the buffer, later frames
  included, until the next call.
\<close>

theorem parse_aborts_on_length_mismatch:
  assumes "find_marker pre = None" and "dl \<noteq> NOT inv_dl" and "9 \<le> length rest"
  shows "parse cfg prev (pre @ [0x41, 0x34, c] @ u16_to_le_bytes dl @ u16_to_le_bytes inv_dl @ rest) =
     Inr (Inl ''Invalid message length.'', prev, rest)"
proof -
  let ?r = "pre @ 0x41 # 0x34 # c # u16_to_le_bytes dl @ u16_to_le_bytes inv_dl @ rest"
  have "parse_frame cfg (init_state prev ?r) =
      Inr (Return (Inl ''Invalid message length.'') ((init_state prev ?r)\<lparr>ring := rest\<rparr>))"
    using parse_frame_at_marker [of "init_state prev ?r" pre _ cfg] assms
    by (simp add: u16_to_le_bytes_def decode_frame_Cons init_state_def)
  moreover have "15 < length (ring (init_state prev ?r))"
    using assms(3) by (simp add: init_state_def)
  ultimately show ?thesis
    by (simp add: parse_def parse_loop_Return init_state_def)
qed

theorem parse_aborts_on_length_mismatch_witness:
  "parse debug_512 (Some 1)
     ([0x41, 0x34, 0xEA] @ u16_to_le_bytes 5 @ u16_to_le_bytes 0xFFFB @ encode sqi_frame) =
     Inr (Inl ''Invalid message length.'', Some 1, encode sqi_frame)"
  using parse_aborts_on_length_mismatch [of "[]" 5 "0xFFFB" "encode sqi_frame" debug_512 "Some 1" "0xEA"]
  by simp

subsection \<open>What a call does to the buffer\<close>

lemma parse_frame_measure:
  assumes "within_capacity (LEN cfg) (ring s)" and "parse_frame cfg s = Inr fl"
  shows "12 * while_counter (state_of fl) + length (ring (state_of fl))
    \<le> 12 * while_counter s + length (ring s)"
proof (cases fl)
  case (Continue s1)
  with parse_frame_Continue_shrinks [of cfg s s1] parse_frame_counter [OF assms(2)] assms(2)
  show ?thesis by simp
next
  case (Return res s1)
  from parse_frame_ring_drop [OF assms] obtain k where "ring (state_of fl) = drop k (ring s)" ..
  with Return parse_frame_counter [OF assms(2)] show ?thesis by simp
qed

lemma parse_loop_ring_drop:
  assumes "parse_loop cfg s = Inr (res, s')" and "within_capacity (LEN cfg) (ring s)"
  shows "\<exists>k. ring s' = drop k (ring s)"
  using assms
proof (induction rule: parse_loop_Inr_induct)
  case (stop s)
  have "ring s = drop 0 (ring s)" by simp
  then show ?case ..
next
  case (return s res s')
  from parse_frame_ring_drop [OF return(3,2)] show ?case by simp
next
  case (continue s s1 res s')
  from parse_frame_ring_drop [OF continue(5,2)] obtain k where k: "ring s1 = drop k (ring s)"
    by auto
  with continue(5) have "within_capacity (LEN cfg) (ring s1)" by (simp add: within_capacity_def)
  from continue(4) [OF this] obtain j where "ring s' = drop j (ring s1)" ..
  with k have "ring s' = drop (j + k) (ring s)" by simp
  then show ?case ..
qed

lemma parse_loop_measure:
  assumes "parse_loop cfg s = Inr (res, s')" and "within_capacity (LEN cfg) (ring s)"
  shows "12 * while_counter s' + length (ring s') \<le> 12 * while_counter s + length (ring s)"
  using assms
proof (induction rule: parse_loop_Inr_induct)
  case (return s res s')
  from parse_frame_measure [OF return(3,2)] show ?case by simp
next
  case (continue s s1 res s')
  from parse_frame_within_capacity [OF continue(5,2)] have "within_capacity (LEN cfg) (ring s1)"
    by simp
  from continue(4) [OF this] parse_frame_measure [OF continue(5,2)] show ?case by simp
qed simp

text \<open>
  The loop counter is an \<^verbatim>\<open>i32\<close> in the source and a natural number
  here. In a call it counts from 0 and stays below a twelfth of the bytes
  buffered, so for every buffer the program can have its increment cannot
  leave the range of \<^verbatim>\<open>i32\<close>.
\<close>

lemma while_counter_fits_i32:
  assumes "parse_loop cfg (init_state prev r) = Inr (res, s')"
    and "within_capacity (LEN cfg) r" and "LEN cfg < 12 * 2 ^ 31"
  shows "while_counter s' < 2 ^ 31"
proof -
  from parse_loop_measure [OF assms(1)] assms(2)
  have "12 * while_counter s' \<le> LEN cfg"
    by (simp add: within_capacity_def)
  with assms(3) show ?thesis by simp
qed

lemma parse_ring_drop:
  assumes "within_capacity (LEN cfg) r" and "parse cfg prev r = Inr (res, prev', r')"
  shows "\<exists>k. r' = drop k r"
proof -
  from assms(2) obtain s' where s': "parse_loop cfg (init_state prev r) = Inr (res, s')"
    and r': "r' = ring s'"
    by (auto simp: parse_def and_then_eq_Inr_iff)
  from parse_loop_ring_drop [OF s'] assms(1) r' show ?thesis by simp
qed

lemma parse_within_capacity:
  assumes "within_capacity (LEN cfg) r" and "parse cfg prev r = Inr (res, prev', r')"
  shows "within_capacity (LEN cfg) r'"
proof -
  from parse_ring_drop [OF assms] obtain k where "r' = drop k r" ..
  with assms(1) show ?thesis by (simp add: within_capacity_def)
qed

text \<open>
  C10. Whatever the buffer holds, a call that does not panic leaves a
  suffix of the buffer it was given, within the capacity: the decoder only
  consumes from the front, and the marker it pushes back is the one it
  popped.
\<close>

theorem parse_ring_suffix:
  assumes "within_capacity (LEN cfg) r" and "parse cfg prev r = Inr (res, prev', r')"
  shows "within_capacity (LEN cfg) r' \<and> (\<exists>k. r' = drop k r)"
  using assms by (blast intro: parse_within_capacity dest: parse_ring_drop)

theorem parse_ring_suffix_witness:
  "within_capacity (LEN debug_512) ([0, 0x34] @ encode sqi_frame @ [0x41])
   \<and> within_capacity (LEN debug_512) [0x41 :: u8]
   \<and> (\<exists>k. [0x41 :: u8] = drop k ([0, 0x34] @ encode sqi_frame @ [0x41]))"
  using parse_ring_suffix [of debug_512 "[0, 0x34] @ encode sqi_frame @ [0x41]" "Some 0x84",
      OF _ parse_sqi_example]
  by (simp add: debug_512_def within_capacity_def)

text \<open>
  C17. The loop of a call decodes at most one frame per twelve bytes it
  consumes: when it ends, twelve times the number of completed iterations
  plus the bytes left is at most the bytes the call was given. With the
  capacity of 512 bytes this bounds the loop by 42 iterations.
\<close>

theorem parse_loop_frame_bound:
  assumes "parse_loop cfg (init_state prev r) = Inr (res, s')" and "within_capacity (LEN cfg) r"
  shows "12 * while_counter s' + length (ring s') \<le> length r"
  using parse_loop_measure [OF assms(1)] assms(2) by (simp add: init_state_def)

theorem parse_loop_frame_bound_witness:
  "within_capacity (LEN debug_512) ([0, 0x34] @ encode sqi_frame @ [0x41])
   \<and> 12 * (1 :: nat) + length [0x41 :: u8] \<le> length ([0 :: u8, 0x34] @ encode sqi_frame @ [0x41])"
  using parse_loop_frame_bound [OF parse_loop_sqi_example]
  by (simp add: debug_512_def within_capacity_def)

lemma parse_loop_Ok_leaves_few:
  assumes "parse_loop cfg s = Inr (Inr x, s')"
  shows "length (ring s') \<le> 15"
proof -
  have "case res of Inr x \<Rightarrow> length (ring s') \<le> 15 | Inl e \<Rightarrow> True"
    if "parse_loop cfg s = Inr (res, s')" for res
    using that
  proof (induction rule: parse_loop_Inr_induct)
    case (return s res s')
    then show ?case by (cases res) (simp_all add: parse_frame_Return_Ok)
  qed simp_all
  from this [OF assms] show ?thesis by simp
qed

lemma parse_Ok_leaves_few:
  "parse cfg prev r = Inr (Inr x, prev', r') \<Longrightarrow> length r' \<le> 15"
  by (auto simp: parse_def and_then_eq_Inr_iff dest: parse_loop_Ok_leaves_few)

end
