(* ===== verification/Driver.thy ===== *)
theory Driver
  imports Parser
begin

text \<open>
  The driver loop of \<^verbatim>\<open>main\<close> (\<^verbatim>\<open>src/main.rs\<close>) after the port has been
  opened. The serial port is the environment: what \<^verbatim>\<open>port.read\<close> returns
  in one iteration is a \<open>read_event\<close>. \<open>driver\<close> holds the variables that
  live across iterations (the circular buffer, \<open>prev_seqnum\<close> and
  \<open>result\<close>); \<open>main_step\<close> is one iteration of the \<^verbatim>\<open>loop\<close>: it extends
  the buffer with the bytes read, calls \<open>parse\<close>, and yields the packet it
  prints as \<^verbatim>\<open>PARSED\<close>, if any (\<open>printed\<close>). \<open>main_run\<close> runs the loop
  over a finite sequence of reads and collects what was printed. A panic of
  \<open>parse\<close> ends the program. \<open>reachable\<close> are the states of the driver
  after finitely many reads, \<open>driver_inv\<close> is their invariant. A read of
  \<^verbatim>\<open>main\<close> delivers at most 512 bytes, the size of its array; no lemma
  here needs that bound.
\<close>

datatype read_event = Received "u8 list" | TimedOut | Failed

record driver =
  d_ring :: "u8 list"
  d_prev_seqnum :: "u8 option"
  d_result :: "string + packet option"

definition main_init :: driver where
  "main_init = \<lparr>d_ring = [], d_prev_seqnum = None, d_result = Inr None\<rparr>"

definition printed :: "nat \<Rightarrow> string + packet option \<Rightarrow> packet option" where
  "printed bytes_received result =
     (if 0 < bytes_received then (case result of Inr (Some data) \<Rightarrow> Some data | _ \<Rightarrow> None)
      else None)"

definition main_step :: "config \<Rightarrow> read_event \<Rightarrow> driver \<Rightarrow> panic + (packet option \<times> driver)" where
  "main_step cfg ev d =
     (case ev of
        Received bytes \<Rightarrow>
          (let ring = extend_from_slice (LEN cfg) bytes (d_ring d)
           in and_then (parse cfg (d_prev_seqnum d) ring) (\<lambda>(result, prev, ring).
              Inr (printed (length bytes) result,
                   \<lparr>d_ring = ring, d_prev_seqnum = prev, d_result = result\<rparr>)))
      | TimedOut \<Rightarrow> Inr (printed 0 (d_result d), d)
      | Failed \<Rightarrow> Inr (printed 0 (d_result d), d))"

fun main_run :: "config \<Rightarrow> read_event list \<Rightarrow> driver \<Rightarrow> panic + (packet list \<times> driver)" where
  "main_run cfg [] d = Inr ([], d)"
| "main_run cfg (ev # evs) d =
     and_then (main_step cfg ev d) (\<lambda>(out, d).
     and_then (main_run cfg evs d) (\<lambda>(outs, d).
     Inr ((case out of None \<Rightarrow> outs | Some data \<Rightarrow> data # outs), d)))"

text \<open>The states the driver can be in after finitely many reads.\<close>

inductive reachable :: "config \<Rightarrow> driver \<Rightarrow> bool" for cfg :: config where
  init: "reachable cfg main_init"
| step: "reachable cfg d \<Longrightarrow> main_step cfg ev d = Inr (out, d') \<Longrightarrow> reachable cfg d'"

text \<open>
  The invariant of the driver: the buffer is within its capacity, and after
  a call that returned \<open>Ok\<close> it holds at most 15 bytes.
\<close>

definition driver_inv :: "config \<Rightarrow> driver \<Rightarrow> bool" where
  "driver_inv cfg d \<longleftrightarrow>
     within_capacity (LEN cfg) (d_ring d)
     \<and> (case d_result d of Inr x \<Rightarrow> length (d_ring d) \<le> 15 | Inl e \<Rightarrow> True)"

text \<open>
  The packet a data frame is printed as, and the frames the round trip is
  stated for: well-formed, with at least four payload bytes, of a known
  data type other than the time stamp and the version. \<open>seqs_safe\<close> says
  that the sequence tracker panics on none of a list of frames.
\<close>

definition packet_of_frame :: "frame \<Rightarrow> packet" where
  "packet_of_frame f = (0, subsec f, 0, DataType_from (ident f), payload f)"

definition data_frame :: "frame \<Rightarrow> bool" where
  "data_frame f \<longleftrightarrow>
     well_formed f \<and> 4 \<le> length (payload f) \<and> \<not> is_invalid (DataType_from (ident f))
     \<and> ident f \<noteq> 0x8A \<and> ident f \<noteq> 0x03"

fun seqs_safe :: "bool \<Rightarrow> u8 option \<Rightarrow> frame list \<Rightarrow> bool" where
  "seqs_safe checks prev [] = True"
| "seqs_safe checks prev (f # fs) =
     (seq_safe checks prev (seq f) \<and> seqs_safe checks (Some (seq f)) fs)"

subsection \<open>One iteration\<close>

lemma printed_simps [simp]:
  "printed 0 res = None" "printed n (Inl e) = None" "printed n (Inr None) = None"
  "0 < n \<Longrightarrow> printed n (Inr (Some data)) = Some data"
  by (simp_all add: printed_def)

lemma main_step_idle [simp]:
  "main_step cfg TimedOut d = Inr (None, d)" "main_step cfg Failed d = Inr (None, d)"
  by (simp_all add: main_step_def)

lemma main_step_Received:
  "parse cfg (d_prev_seqnum d) (extend_from_slice (LEN cfg) bytes (d_ring d)) = Inr (res, prev, r)
   \<Longrightarrow> main_step cfg (Received bytes) d =
       Inr (printed (length bytes) res, \<lparr>d_ring = r, d_prev_seqnum = prev, d_result = res\<rparr>)"
  by (simp add: main_step_def)

lemma main_step_panics:
  "main_step cfg ev d = Inl p \<longleftrightarrow>
     (\<exists>bytes. ev = Received bytes
        \<and> parse cfg (d_prev_seqnum d) (extend_from_slice (LEN cfg) bytes (d_ring d)) = Inl p)"
  by (cases ev) (auto simp: main_step_def and_then_eq_Inl_iff)

lemma main_step_Inr_cases [consumes 1, case_names idle received]:
  assumes "main_step cfg ev d = Inr (out, d')"
  obtains "ev = TimedOut \<or> ev = Failed" "out = None" "d' = d"
  | bytes res prev r where "ev = Received bytes"
      "parse cfg (d_prev_seqnum d) (extend_from_slice (LEN cfg) bytes (d_ring d)) =
         Inr (res, prev, r)"
      "out = printed (length bytes) res"
      "d' = \<lparr>d_ring = r, d_prev_seqnum = prev, d_result = res\<rparr>"
  using assms by (cases ev) (auto simp: main_step_def and_then_eq_Inr_iff)

lemma main_step_invariant:
  assumes "main_step cfg ev d = Inr (out, d')" and "driver_inv cfg d"
  shows "driver_inv cfg d'"
  using assms(1)
proof (cases rule: main_step_Inr_cases)
  case idle
  with assms(2) show ?thesis by simp
next
  case (received bytes res prev r)
  from parse_within_capacity [OF _ received(2)] have "within_capacity (LEN cfg) r" by simp
  moreover have "length r \<le> 15" if "res = Inr x" for x
    using received(2) that by (auto dest: parse_Ok_leaves_few)
  ultimately show ?thesis using received(4) by (simp add: driver_inv_def split: sum.split)
qed

lemma parse_frame_alone:
  assumes "data_frame f" and "seq_safe (overflow_checks cfg) prev (seq f)"
  shows "parse cfg prev (encode f) = Inr (Inr (Some (packet_of_frame f)), Some (seq f), [])"
  using assms parse_loop_decoded [of f "[]" cfg "init_state prev (encode f)" "[]"]
  by (simp add: data_frame_def parse_def parse_loop_starved packet_of_def packet_of_frame_def)

lemma main_step_frame:
  assumes "data_frame f" and "seq_safe (overflow_checks cfg) (d_prev_seqnum d) (seq f)"
    and "d_ring d = []" and "length (encode f) \<le> LEN cfg"
  shows "main_step cfg (Received (encode f)) d =
     Inr (Some (packet_of_frame f),
       \<lparr>d_ring = [], d_prev_seqnum = Some (seq f), d_result = Inr (Some (packet_of_frame f))\<rparr>)"
  using assms by (simp add: main_step_def parse_frame_alone)

lemma waveform_frame_fields [simp]:
  "payload waveform_frame = [0x10, 0x10, 0x10, 0x0F, 0x20, 0x0E]" "seq waveform_frame = 0x87"
  "subsec waveform_frame = 2" "ident waveform_frame = 0x80"
  by (simp_all add: waveform_frame_def)

lemma sample_data_frames [simp]: "data_frame sqi_frame" "data_frame waveform_frame"
  by (simp_all add: data_frame_def DataType_from_def well_formed_def)

lemma main_step_sqi_example:
  "main_step debug_512 (Received (encode sqi_frame)) main_init =
     Inr (Some (packet_of_frame sqi_frame),
       \<lparr>d_ring = [], d_prev_seqnum = Some 0x85, d_result = Inr (Some (packet_of_frame sqi_frame))\<rparr>)"
  using main_step_frame [of sqi_frame debug_512 main_init]
  by (simp add: main_init_def debug_512_def)

subsection \<open>The invariant\<close>

lemma reachable_driver_inv: "reachable cfg d \<Longrightarrow> driver_inv cfg d"
proof (induction rule: reachable.induct)
  case init
  show ?case by (simp add: driver_inv_def main_init_def)
next
  case (step d ev out d')
  from main_step_invariant [OF step(2) step(3)] show ?case .
qed

lemma main_run_reachable:
  "main_run cfg evs d = Inr (outs, d') \<Longrightarrow> reachable cfg d \<Longrightarrow> reachable cfg d'"
proof (induction evs arbitrary: d outs)
  case (Cons ev evs)
  from Cons.prems(1) obtain out d1 outs1 where
    1: "main_step cfg ev d = Inr (out, d1)" and 2: "main_run cfg evs d1 = Inr (outs1, d')"
    by (auto simp: and_then_eq_Inr_iff)
  from Cons.IH [OF 2 reachable.step [OF Cons.prems(2) 1]] show ?case .
qed simp

lemma main_run_sqi_example:
  "main_run debug_512 [Received (encode sqi_frame)] main_init =
     Inr ([packet_of_frame sqi_frame],
       \<lparr>d_ring = [], d_prev_seqnum = Some 0x85, d_result = Inr (Some (packet_of_frame sqi_frame))\<rparr>)"
  by (simp add: main_step_sqi_example)

text \<open>
  C13. Whatever is read, as long as \<open>parse\<close> does not panic the driver
  keeps its buffer within the capacity and, when the last call of \<open>parse\<close>
  returned \<open>Ok\<close>, at most 15 bytes buffered: only after an error return can
  more bytes wait in the buffer.
\<close>

theorem main_run_invariant:
  assumes "main_run cfg evs main_init = Inr (outs, d)"
  shows "within_capacity (LEN cfg) (d_ring d)
    \<and> (case d_result d of Inr x \<Rightarrow> length (d_ring d) \<le> 15 | Inl e \<Rightarrow> True)"
  using reachable_driver_inv [OF main_run_reachable [OF assms reachable.init]]
  by (simp add: driver_inv_def)

theorem main_run_invariant_witness:
  "within_capacity (LEN debug_512)
     (d_ring \<lparr>d_ring = [], d_prev_seqnum = Some 0x85,
        d_result = Inr (Some (packet_of_frame sqi_frame))\<rparr>)
   \<and> (case d_result \<lparr>d_ring = [], d_prev_seqnum = Some 0x85,
         d_result = Inr (Some (packet_of_frame sqi_frame))\<rparr> of
       Inr x \<Rightarrow> length (d_ring \<lparr>d_ring = [], d_prev_seqnum = Some 0x85,
         d_result = Inr (Some (packet_of_frame sqi_frame))\<rparr>) \<le> 15
     | Inl e \<Rightarrow> True)"
  using main_run_invariant [OF main_run_sqi_example] .

text \<open>
  C24. After a call that returned \<open>Ok\<close>, a read of at most \<open>LEN - 15\<close> bytes
  (497 for the buffer of \<^verbatim>\<open>main\<close>) evicts nothing: \<open>parse\<close> is called on
  the bytes that were buffered followed by the bytes read.
\<close>

theorem main_step_no_eviction:
  assumes "reachable cfg d" and "d_result d = Inr x" and "length bytes + 15 \<le> LEN cfg"
  shows "main_step cfg (Received bytes) d =
     and_then (parse cfg (d_prev_seqnum d) (d_ring d @ bytes)) (\<lambda>(result, prev, ring).
       Inr (printed (length bytes) result,
            \<lparr>d_ring = ring, d_prev_seqnum = prev, d_result = result\<rparr>))"
proof -
  from reachable_driver_inv [OF assms(1)] assms(2) have "length (d_ring d) \<le> 15"
    by (simp add: driver_inv_def)
  with assms(3) show ?thesis by (simp add: main_step_def)
qed

theorem main_step_no_eviction_witness:
  "main_step debug_512 (Received [0x41, 0x34]) main_init =
     and_then (parse debug_512 None ([] @ [0x41, 0x34])) (\<lambda>(result, prev, ring).
       Inr (printed (length [0x41 :: u8, 0x34]) result,
            \<lparr>d_ring = ring, d_prev_seqnum = prev, d_result = result\<rparr>))"
  using main_step_no_eviction [OF reachable.init, where cfg = debug_512 and x = None
      and bytes = "[0x41, 0x34]"]
  by (simp add: main_init_def debug_512_def)

subsection \<open>Runs\<close>

lemma main_run_append:
  "main_run cfg (evs @ evs') d =
     and_then (main_run cfg evs d) (\<lambda>(outs, d).
     and_then (main_run cfg evs' d) (\<lambda>(outs', d).
     Inr (outs @ outs', d)))"
proof (induction evs arbitrary: d)
  case Nil
  show ?case by (cases "main_run cfg evs' d") auto
next
  case (Cons ev evs)
  show ?case
    by (cases "main_step cfg ev d")
      (auto simp: Cons.IH and_then_def split: sum.splits option.splits)
qed

text \<open>
  C11. Reads that deliver one whole data frame each are printed frame by
  frame: when the buffer is empty, every read is the encoding of a data
  frame that fits the buffer and the sequence tracker does not panic, the
  driver prints the packet of every frame, in order, and ends with an empty
  buffer.
\<close>

theorem main_run_aligned:
  assumes "\<forall>f \<in> set fs. data_frame f \<and> length (encode f) \<le> LEN cfg"
    and "seqs_safe (overflow_checks cfg) (d_prev_seqnum d) fs" and "d_ring d = []"
  shows "\<exists>d'. main_run cfg (map (\<lambda>f. Received (encode f)) fs) d =
        Inr (map packet_of_frame fs, d')
    \<and> d_ring d' = []"
  using assms
proof (induction fs arbitrary: d)
  case (Cons f fs)
  let ?d = "\<lparr>d_ring = [], d_prev_seqnum = Some (seq f),
    d_result = Inr (Some (packet_of_frame f))\<rparr>"
  from Cons.prems
  have step: "main_step cfg (Received (encode f)) d = Inr (Some (packet_of_frame f), ?d)"
    by (simp add: main_step_frame)
  from Cons.prems Cons.IH [of ?d] obtain d' where
    "main_run cfg (map (\<lambda>f. Received (encode f)) fs) ?d = Inr (map packet_of_frame fs, d')"
    "d_ring d' = []"
    by auto
  with step show ?case by simp
qed simp

theorem main_run_aligned_witness:
  "\<exists>d'. main_run debug_512 [Received (encode sqi_frame), Received (encode waveform_frame)]
        main_init =
      Inr ([packet_of_frame sqi_frame, packet_of_frame waveform_frame], d')
    \<and> d_ring d' = []"
  using main_run_aligned [of "[sqi_frame, waveform_frame]" debug_512 main_init]
  by (simp add: debug_512_def main_init_def seq_safe_def)

text \<open>
  C23. A read that leaves at most 15 bytes in the buffer prints a packet
  that was never sent: \<open>parse\<close> returns \<open>Ok(Some(...))\<close> of its initial
  locals, and the driver prints it as \<^verbatim>\<open>PARSED\<close> with times and version 0,
  data type \<open>Invalid(255)\<close> and no payload.
\<close>

theorem main_step_phantom:
  assumes "0 < length bytes" and "length (d_ring d) + length bytes \<le> 15" and "15 \<le> LEN cfg"
  shows "main_step cfg (Received bytes) d =
     Inr (Some (0, 0, 0, DataType.Invalid 255, []),
       \<lparr>d_ring = d_ring d @ bytes, d_prev_seqnum = d_prev_seqnum d,
        d_result = Inr (Some (0, 0, 0, DataType.Invalid 255, []))\<rparr>)"
  using assms by (simp add: main_step_def parse_def parse_loop_starved)

theorem main_step_phantom_witness:
  "main_step debug_512 (Received [0x41, 0x34, 0x8D]) main_init =
     Inr (Some (0, 0, 0, DataType.Invalid 255, []),
       \<lparr>d_ring = [0x41, 0x34, 0x8D], d_prev_seqnum = None,
        d_result = Inr (Some (0, 0, 0, DataType.Invalid 255, []))\<rparr>)"
  using main_step_phantom [of "[0x41, 0x34, 0x8D]" main_init debug_512]
  by (simp add: debug_512_def main_init_def)

text \<open>
  C12. The driver is sensitive to where the reads cut the stream. A data
  frame read whole is printed. The same frame cut inside its payload, after
  at least four payload bytes, with at most 15 bytes in the second read and
  a partial payload that does not sum to the checksum, is lost: the first
  call consumes the partial frame and rejects it with a checksum error, and
  the second read prints only the packet of the initial locals.
\<close>

theorem main_run_split_frame:
  assumes "data_frame f" and "4 \<le> n" and "n < length (payload f)"
    and "length (payload f) \<le> n + 15" and "length (encode f) \<le> LEN cfg"
    and "sum_list (take n (payload f)) \<noteq> sum_list (payload f)"
  shows "map_sum id fst (main_run cfg [Received (encode f)] main_init) = Inr [packet_of_frame f]
    \<and> map_sum id fst (main_run cfg
        [Received (take (12 + n) (encode f)), Received (drop (12 + n) (encode f))] main_init) =
      Inr [(0, 0, 0, DataType.Invalid 255, [])]"
proof
  show "map_sum id fst (main_run cfg [Received (encode f)] main_init) = Inr [packet_of_frame f]"
    using assms(1,5) by (simp add: main_step_frame main_init_def)
next
  let ?s = "init_state None (take (12 + n) (encode f))"
  from assms(1) have wf: "well_formed f" by (simp add: data_frame_def)
  from assms(2,3) have len: "4 \<le> length (take n (payload f))" by simp
  have r: "ring ?s = [] @ frame_header f @ take n (payload f)"
    by (simp add: take_encode)
  from wf have "length (take n (payload f)) \<le> 65535"
    by (simp add: well_formed_def)
  with assms(3,6) have "parse_frame cfg ?s =
     Inr (Return (Inl ''Invalid checksum.'')
       (?s\<lparr>ring := [], prev_seqnum := Some (seq f), tt_ss := subsec f,
          datatype_v := DataType_from (ident f), datavec := take n (payload f)\<rparr>))"
    by (simp add: decode_header [OF wf len _ _ r] finish_frame_eq frame_checksum_def min_def)
  moreover have "15 < length (ring ?s)" using assms(2,3) by (simp add: length_encode)
  ultimately have 1: "parse cfg None (take (12 + n) (encode f)) =
     Inr (Inl ''Invalid checksum.'', Some (seq f), [])"
    by (simp add: parse_def parse_loop_Return)
  have 2: "parse cfg (Some (seq f)) (drop (12 + n) (encode f)) =
     Inr (Inr (Some (0, 0, 0, DataType.Invalid 255, [])), Some (seq f), drop (12 + n) (encode f))"
    using assms(4) by (simp add: parse_def parse_loop_starved length_encode)
  from assms(3,5) have "0 < length (drop (12 + n) (encode f))"
    "length (encode f) - (12 + n) \<le> LEN cfg" "min (length (encode f)) (12 + n) \<le> LEN cfg"
    by (simp_all add: length_encode)
  then show "map_sum id fst (main_run cfg
        [Received (take (12 + n) (encode f)), Received (drop (12 + n) (encode f))] main_init) =
      Inr [(0, 0, 0, DataType.Invalid 255, [])]"
    by (simp add: main_step_def main_init_def 1 2)
qed

theorem main_run_split_frame_witness:
  "map_sum id fst (main_run debug_512 [Received (encode waveform_frame)] main_init) =
     Inr [packet_of_frame waveform_frame]
   \<and> map_sum id fst (main_run debug_512
       [Received (take (12 + 4) (encode waveform_frame)),
        Received (drop (12 + 4) (encode waveform_frame))] main_init) =
     Inr [(0, 0, 0, DataType.Invalid 255, [])]"
  using main_run_split_frame [of waveform_frame 4 debug_512]
  by (simp add: debug_512_def)

end
