(* ===== verification/Spec2Isabelle.thy ===== *)
theory Spec2Isabelle
  imports Zeo_Prelude Frame_Types Frame_Display Noise_Filter Reservoir Synchronizer Wire_Format
    Decoder Tracking Frame_Decoding Frame_Safety Parser Driver
begin

text \<open>
  A verification development for \<^verbatim>\<open>rawzeo\<close>, a decoder for the raw serial
  protocol of the Zeo sleep headband (\<^verbatim>\<open>src/lib.rs\<close>, \<^verbatim>\<open>src/main.rs\<close>).

  \<^bold>\<open>The program.\<close> The driver (\<^verbatim>\<open>main\<close>) reads chunks of bytes from the
  serial port, appends them to a circular buffer of 512 bytes and calls
  \<^verbatim>\<open>parse\<close>. \<^verbatim>\<open>parse\<close> loops while more than 15 bytes are buffered: it
  pops bytes until the two-byte marker \<^verbatim>\<open>A4\<close> has gone by, pushes the marker
  back and returns when fewer than 14 bytes follow, and otherwise pops the
  header fields (checksum, length and inverted length, time low byte,
  sub-second counter, sequence number, data type), reads the payload, checks
  length redundancy, checksum and data type, and extracts the absolute time
  or the protocol version from time-stamp and version frames. The frame type
  tables of \<^verbatim>\<open>lib.rs\<close> classify the identifier bytes.

  \<^bold>\<open>Conventions.\<close> \<^verbatim>\<open>u8\<close>, \<^verbatim>\<open>u16\<close> and \<^verbatim>\<open>u32\<close> are words of that width,
  so \<open>+\<close> and \<open>-\<close> wrap. A panic is a value: a computation that can panic
  has type \<open>panic + 'a\<close> and is sequenced by \<open>and_then\<close>. Whether \<open>a - b\<close>
  and \<open>a + b\<close> panic on overflow depends on the build profile, which is the
  flag \<open>overflow_checks\<close> of \<open>config\<close> (\<open>sub_op\<close>, \<open>add_op\<close>). A
  \<^verbatim>\<open>Result\<close> is a sum with the error message on the left. Buffers are lists
  with the front at the head; the capacity of the circular buffer is the
  field \<open>LEN\<close> of \<open>config\<close>. Of what the program prints the model keeps
  the packet the driver prints after \<^verbatim>\<open>PARSED\<close>, and every value computed
  for printing that can panic (the number of lost frames).

  \<^bold>\<open>The theories.\<close>
  \<^item> \<open>Zeo_Prelude\<close>: the word types, \<open>panic\<close> and \<open>and_then\<close>, the
    standard-library operations the sources call (\<open>unwrap\<close>, \<open>unwrap_or\<close>,
    \<open>from_le_bytes\<close>, \<open>saturating_sub\<close>, \<open>saturating_add\<close>, checked
    arithmetic), their lemmas, and the collections \<open>zeo_defs\<close> and
    \<open>zeo_simps\<close>.
  \<^item> \<open>Frame_Types\<close>: the enumerations \<^verbatim>\<open>DataType\<close>, \<^verbatim>\<open>EventType\<close>,
    \<^verbatim>\<open>FrequencyBins\<close> and \<^verbatim>\<open>SleepStages\<close> of \<^verbatim>\<open>lib.rs\<close> with their
    discriminants, their \<^verbatim>\<open>From<u8>\<close> conversions and the methods of
    \<^verbatim>\<open>FrequencyBins\<close>; which conversions invert the discriminants, and the
    one variant for which \<^verbatim>\<open>EventType::from\<close> does not.
  \<^item> \<open>Frame_Display\<close>: the \<^verbatim>\<open>Display\<close> implementations of the four
    enumerations, with a model of the decimal rendering of a byte; no two
    values of an enumeration print alike.
  \<^item> \<open>Noise_Filter\<close>: the convolution filter \<^verbatim>\<open>filter60hz\<close> of \<^verbatim>\<open>lib.rs\<close> with
    its two loops, its bounds checks and its kernel, over real numbers; it
    computes the convolution sum \<open>conv\<close>, answers the unit impulse with
    its kernel, and panics on an empty input.
  \<^item> \<open>Reservoir\<close>: the operations of the circular buffer and of the deque
    that \<^verbatim>\<open>parse\<close> and \<^verbatim>\<open>main\<close> call, modelled from their contract, with
    the capacity invariant \<open>within_capacity\<close>.
  \<^item> \<open>Synchronizer\<close>: the marker scan (\<open>sync\<close>, \<open>message_start\<close>: the
    inner loop of \<^verbatim>\<open>parse\<close>) and the push-back \<open>restore_start\<close>; the
    specification \<open>find_marker\<close> of the first marker and the proof that
    the scan refines it.
  \<^item> \<open>Wire_Format\<close>: frames as records and their encoding \<open>encode\<close>, from
    the layout \<^verbatim>\<open>AncllLLTttsidddd\<close> that the doc comments of \<^verbatim>\<open>lib.rs\<close> and
    of \<^verbatim>\<open>parse\<close> document. The sources hold no encoder (the headband is the
    sender): \<open>encode\<close> is the specification side of the round trip, not
    code. A frame is \<open>well_formed\<close> when its length field does not
    overflow 16 bits.
  \<^item> \<open>Decoder\<close>: the state \<open>pstate\<close> of \<^verbatim>\<open>parse\<close> (its two \<^verbatim>\<open>&mut\<close>
    parameters and its locals) and the loop body \<open>parse_frame\<close>, composed
    of \<open>decode_frame\<close>, \<open>decode_body\<close> and \<open>finish_frame\<close> in the order
    of the code, with every early return and every panic as a branch; the
    lemmas that unfold the body on a buffer of known shape, the elimination
    rule \<open>parse_frame_Inr_cases\<close> for its three normal endings, and what
    it does to the buffer and to the loop counter.
  \<^item> \<open>Tracking\<close>: what the sequence tracker reports and where it panics;
    that the timestamp reconciler stays within one second and recovers the
    time whose low byte the frame carries.
  \<^item> \<open>Frame_Decoding\<close>: the round trip of \<open>encode\<close> through
    \<open>parse_frame\<close> for data, time-stamp and version frames; the error
    returns (length mismatch, checksum mismatch, unknown data type); the
    push-back when too few bytes follow the marker; and what happens to a
    frame whose payload has not arrived completely.
  \<^item> \<open>Frame_Safety\<close>: exactly when the loop body panics and with which
    panic, that the checksum never overflows, and that the buffer the body
    leaves is a suffix of the buffer it found.
  \<^item> \<open>Parser\<close>: the loop \<open>parse_loop\<close> with its termination proof and
    the function \<open>parse\<close>; calls on too few bytes, on bytes without a
    marker, on one and on two encoded frames, and on a frame with a length
    mismatch; the buffer after a call and the bound on the iterations.
  \<^item> \<open>Driver\<close>: the loop of \<^verbatim>\<open>main\<close> as a step function \<open>main_step\<close> over
    what the port returns (\<open>read_event\<close>), its runs \<open>main_run\<close> and its
    reachable states; the invariant of the buffer, the reads that evict
    nothing, runs on reads that deliver whole frames, and what happens when
    a read cuts a frame.

  \<^bold>\<open>Bounds.\<close> Nothing is bounded by fuel. The loop of \<^verbatim>\<open>parse\<close> is a total
  function: every iteration that continues removes at least twelve bytes
  (\<open>parse_frame_Continue_shrinks\<close>), so the length of the buffer is the
  termination measure. The checksum is summed in \<^verbatim>\<open>u32\<close>; a payload has at
  most 65535 bytes, so the sum stays below \<open>2^32\<close> (\<open>checksum_in_range\<close>)
  and equals the 8-bit sum \<open>frame_checksum\<close> modulo 256. The loop counter
  \<open>while_counter\<close>, an \<^verbatim>\<open>i32\<close> in the source, is a natural number:
  \<open>parse_loop_measure\<close> bounds it by a twelfth of the bytes buffered, so in
  a call it stays in the range of \<^verbatim>\<open>i32\<close> (\<open>while_counter_fits_i32\<close>) and
  its increment does not panic; the lemmas on the loop body alone take the
  counter as unbounded.
  The sample configuration \<open>debug_512\<close> is the capacity \<^verbatim>\<open>parse\<close> is called with in
  \<^verbatim>\<open>main\<close> and a build with overflow checks. In \<open>Noise_Filter\<close> a \<^verbatim>\<open>usize\<close> is
  a natural number: the lengths of slices are below \<open>2^63\<close>, so the sums
  of lengths the filter forms do not overflow, and the subtractions are
  modelled with their underflow.

  \<^bold>\<open>What the theorems show of the program.\<close> A well-formed data frame is
  decoded to what was encoded, whatever bytes precede the marker and
  whatever the payload holds. A call returns only the last frame it
  decodes, resets the clock and the version at every call, and stops at the
  first error leaving later frames buffered. With at most 15 bytes buffered
  a call returns \<open>Ok(Some(...))\<close> of the initial locals. The decoder panics
  on more than 15 bytes without a marker, on a time-stamp or version frame
  with fewer than three payload bytes, and, with overflow checks, on a
  sequence number below the successor of the previous one and on a length
  field of zero. A frame whose payload is incomplete is consumed and
  reported as a checksum error. The driver keeps its buffer within the
  capacity and, after a call that returned \<open>Ok\<close>, at most 15 bytes
  buffered; it prints every frame of a stream whose reads deliver whole
  frames, loses a frame that a read cuts inside its payload, and prints a
  packet that was never sent whenever at most 15 bytes are buffered.

  \<^bold>\<open>Not modelled.\<close> The serial port itself (opening it, its configuration
  and time-out: the driver is modelled from the first read on, with the
  results of the reads as its input), everything the sources print other
  than the packet after \<^verbatim>\<open>PARSED\<close>, the bound of 512 bytes on one read
  (a read is any list of bytes, so the theorems on the driver hold in
  particular for the reads of \<^verbatim>\<open>main\<close>), and the rounding of \<^verbatim>\<open>f64\<close>:
  the samples, the kernel and the output of the filter are real numbers
  and its literals exact decimals, so its theorems are about the index
  arithmetic and the exact sums, not about floating-point error.
\<close>

lemma frame_tables_total:
  "is_invalid (DataType_from b) \<or> DataType_discriminant (DataType_from b) = b"
  by (cases "b \<in> set data_codes") (simp_all add: is_invalid_from_iff DataType_discriminant_from)

end
